theory Spec2Isabelle
  imports Complex_Main
begin

section \<open>Floating-point values\<close>

text \<open>
  The arrays hold NumPy floats, IEEE binary64 numbers.  A float is a real number that
  binary64 represents, or one of the special values \<open>+inf\<close>, \<open>-inf\<close>, \<open>nan\<close>.  An
  arithmetic operation returns the exact result rounded to the nearest binary64 number,
  ties to the even significand, with gradual underflow and overflow to an infinity;
  division by zero gives an infinity or \<open>nan\<close> and raises nothing.  The sign of zero is
  not modelled.
\<close>

datatype fval = Fin real | PInf | NInf | NaN

text \<open>Rounding a real number to the nearest integer, ties to the even one.\<close>

definition round_even :: "real \<Rightarrow> int" where
  "round_even x =
     (let f = \<lfloor>x\<rfloor>; d = x - of_int f
      in if d < 1 / 2 then f else if 1 / 2 < d then f + 1 else if even f then f else f + 1)"

text \<open>
  The binary exponent of a number, not below the least normal exponent \<open>-1022\<close>, and the
  spacing of the binary64 numbers at that exponent (53 significant bits).
\<close>

definition exponent :: "real \<Rightarrow> int" where
  "exponent x = max \<lfloor>log 2 \<bar>x\<bar>\<rfloor> (- 1022)"

definition ulp :: "real \<Rightarrow> real" where
  "ulp x = 2 powi (exponent x - 52)"

definition round_finite :: "real \<Rightarrow> real" where
  "round_finite x = of_int (round_even (x / ulp x)) * ulp x"

text \<open>The binary64 value of a real number: overflow at \<open>2 ^ 1024\<close>.\<close>

definition round64 :: "real \<Rightarrow> fval" where
  "round64 x =
     (let r = round_finite x
      in if 2 ^ 1024 \<le> \<bar>r\<bar> then (if 0 < x then PInf else NInf) else Fin r)"

text \<open>The real numbers that are binary64 numbers.\<close>

definition float64 :: "real \<Rightarrow> bool" where
  "float64 x = (round64 x = Fin x)"

fun fneg :: "fval \<Rightarrow> fval" where
  "fneg (Fin x) = Fin (- x)"
| "fneg PInf = NInf"
| "fneg NInf = PInf"
| "fneg NaN = NaN"

fun fabs :: "fval \<Rightarrow> fval" where
  "fabs (Fin x) = Fin \<bar>x\<bar>"
| "fabs PInf = PInf"
| "fabs NInf = PInf"
| "fabs NaN = NaN"

fun fadd :: "fval \<Rightarrow> fval \<Rightarrow> fval" where
  "fadd (Fin x) (Fin y) = round64 (x + y)"
| "fadd NaN b = NaN"
| "fadd a NaN = NaN"
| "fadd PInf NInf = NaN"
| "fadd NInf PInf = NaN"
| "fadd PInf b = PInf"
| "fadd a PInf = PInf"
| "fadd NInf b = NInf"
| "fadd a NInf = NInf"

definition fsub :: "fval \<Rightarrow> fval \<Rightarrow> fval" where
  "fsub a b = fadd a (fneg b)"

text \<open>The infinity with the sign of \<open>s\<close>; \<open>nan\<close> when \<open>s\<close> is zero.\<close>

definition inf_of_sign :: "real \<Rightarrow> fval" where
  "inf_of_sign s = (if 0 < s then PInf else if s < 0 then NInf else NaN)"

fun fsign :: "fval \<Rightarrow> real" where
  "fsign (Fin x) = sgn x"
| "fsign PInf = 1"
| "fsign NInf = - 1"
| "fsign NaN = 0"

fun fmul :: "fval \<Rightarrow> fval \<Rightarrow> fval" where
  "fmul (Fin x) (Fin y) = round64 (x * y)"
| "fmul NaN b = NaN"
| "fmul a NaN = NaN"
| "fmul a b = inf_of_sign (fsign a * fsign b)"

fun fdiv :: "fval \<Rightarrow> fval \<Rightarrow> fval" where
  "fdiv (Fin x) (Fin y) = (if y = 0 then inf_of_sign x else round64 (x / y))"
| "fdiv NaN b = NaN"
| "fdiv a NaN = NaN"
| "fdiv (Fin x) b = Fin 0"
| "fdiv a (Fin y) = (if y < 0 then fneg a else a)"
| "fdiv a b = NaN"

text \<open>The order of the floats other than \<open>nan\<close>.\<close>

fun fle :: "fval \<Rightarrow> fval \<Rightarrow> bool" where
  "fle (Fin x) (Fin y) = (x \<le> y)"
| "fle NaN b = False"
| "fle a NaN = False"
| "fle NInf b = True"
| "fle a PInf = True"
| "fle a b = False"

text \<open>\<open>np.maximum\<close> and \<open>np.minimum\<close> of two floats: \<open>nan\<close> propagates.\<close>

fun fmax :: "fval \<Rightarrow> fval \<Rightarrow> fval" where
  "fmax (Fin x) (Fin y) = Fin (max x y)"
| "fmax NaN b = NaN"
| "fmax a NaN = NaN"
| "fmax PInf b = PInf"
| "fmax a PInf = PInf"
| "fmax NInf b = b"
| "fmax a NInf = a"

fun fmin :: "fval \<Rightarrow> fval \<Rightarrow> fval" where
  "fmin (Fin x) (Fin y) = Fin (min x y)"
| "fmin NaN b = NaN"
| "fmin a NaN = NaN"
| "fmin NInf b = NInf"
| "fmin a NInf = NInf"
| "fmin PInf b = b"
| "fmin a PInf = a"

section \<open>Python and NumPy values\<close>

text \<open>
  The notebook works on NumPy arrays.  A two-dimensional array is kept as its list of rows
  together with its column count (an array of shape \<open>(0, T)\<close> still has \<open>T\<close> columns).
  The exceptions the modelled cells can raise are values of \<open>error\<close>.
\<close>

datatype error = ValueError | IndexError | OverflowError

record 'a matrix =
  ncols :: nat
  rows :: "'a list list"

definition wf_matrix :: "'a matrix \<Rightarrow> bool" where
  "wf_matrix m = list_all (\<lambda>r. length r = ncols m) (rows m)"

text \<open>
  \<open>np.array\<close> applied to a Python list of equally shaped arrays stacks them along a new
  first axis; applied to the empty list it gives the one-dimensional array of shape \<open>(0,)\<close>.
  The first argument gives the shape of one item.
\<close>

record 'e stacked =
  shape :: "nat list"
  items :: "'e list"

fun np_array :: "('e \<Rightarrow> nat list) \<Rightarrow> 'e list \<Rightarrow> 'e stacked" where
  "np_array shp [] = \<lparr>shape = [0], items = []\<rparr>"
| "np_array shp (x # xs) = \<lparr>shape = Suc (length xs) # shp x, items = x # xs\<rparr>"

definition matrix_shape :: "'a matrix \<Rightarrow> nat list" where
  "matrix_shape m = [length (rows m), ncols m]"

definition vector_shape :: "'a list \<Rightarrow> nat list" where
  "vector_shape v = [length v]"

text \<open>Python's \<open>range(n)\<close> for an integer \<open>n\<close>: empty when \<open>n \<le> 0\<close>.\<close>

definition py_range :: "int \<Rightarrow> nat list" where
  "py_range n = [0 ..< nat n]"

text \<open>
  A slice bound \<open>k\<close> on an axis of length \<open>n\<close>: a negative bound counts from the end, and
  every bound is clipped to \<open>[0, n]\<close>.
\<close>

definition slice_bound :: "nat \<Rightarrow> int \<Rightarrow> nat" where
  "slice_bound n k = (if k < 0 then nat (max 0 (k + int n)) else min (nat k) n)"

definition py_slice :: "'a list \<Rightarrow> int \<Rightarrow> int \<Rightarrow> 'a list" where
  "py_slice xs lo hi =
     (let l = slice_bound (length xs) lo; h = slice_bound (length xs) hi
      in take (h - l) (drop l xs))"

text \<open>\<open>m[:, lo:hi]\<close>\<close>

definition slice_cols :: "'a matrix \<Rightarrow> int \<Rightarrow> int \<Rightarrow> 'a matrix" where
  "slice_cols m lo hi =
     \<lparr>ncols = slice_bound (ncols m) hi - slice_bound (ncols m) lo,
      rows = map (\<lambda>r. py_slice r lo hi) (rows m)\<rparr>"

text \<open>\<open>m[:, -1]\<close>: IndexError on an axis of size 0.\<close>

definition last_col :: "'a matrix \<Rightarrow> error + 'a list" where
  "last_col m = (if ncols m = 0 then Inl IndexError else Inr (map last (rows m)))"

section \<open>Sequence data preparation\<close>

text \<open>
  One of the two loops of \<open>sequence_data_preparation\<close>: the body run for each \<open>i\<close> of the
  range, appending to the two Python lists.
\<close>

fun prepare_loop ::
  "int \<Rightarrow> int \<Rightarrow> 'a matrix \<Rightarrow> nat list \<Rightarrow> 'a matrix list \<times> 'a list list
     \<Rightarrow> error + ('a matrix list \<times> 'a list list)" where
  "prepare_loop seq_len pre_len data [] (X, Y) = Inr (X, Y)"
| "prepare_loop seq_len pre_len data (i # is) (X, Y) =
     (let a = slice_cols data (int i) (int i + seq_len + pre_len)
      in case last_col a of
           Inl e \<Rightarrow> Inl e
         | Inr y \<Rightarrow> prepare_loop seq_len pre_len data is (X @ [slice_cols a 0 seq_len], Y @ [y]))"

definition sequence_data_preparation ::
  "int \<Rightarrow> int \<Rightarrow> 'a matrix \<Rightarrow> 'a matrix
     \<Rightarrow> error + ('a matrix stacked \<times> 'a list stacked \<times> 'a matrix stacked \<times> 'a list stacked)" where
  "sequence_data_preparation seq_len pre_len train_data test_data =
     (case prepare_loop seq_len pre_len train_data
             (py_range (int (ncols train_data) - (seq_len + pre_len - 1))) ([], []) of
        Inl e \<Rightarrow> Inl e
      | Inr (trainX, trainY) \<Rightarrow>
          (case prepare_loop seq_len pre_len test_data
                  (py_range (int (ncols test_data) - (seq_len + pre_len - 1))) ([], []) of
             Inl e \<Rightarrow> Inl e
           | Inr (testX, testY) \<Rightarrow>
               Inr (np_array matrix_shape trainX, np_array vector_shape trainY,
                    np_array matrix_shape testX, np_array vector_shape testY)))"

section \<open>Train/test split\<close>

text \<open>
  \<open>int(x)\<close> of a float truncates towards zero; it raises ValueError on \<open>nan\<close> and
  OverflowError on an infinity.
\<close>

definition py_int :: "fval \<Rightarrow> error + int" where
  "py_int x =
     (case x of
        Fin r \<Rightarrow> Inr (if 0 \<le> r then \<lfloor>r\<rfloor> else \<lceil>r\<rceil>)
      | NaN \<Rightarrow> Inl ValueError
      | _ \<Rightarrow> Inl OverflowError)"

text \<open>
  \<open>n * x\<close> for a Python integer \<open>n\<close> and a float \<open>x\<close>: the integer is converted to the
  nearest float first, with OverflowError when it is too large for a float.
\<close>

definition int_times_float :: "nat \<Rightarrow> fval \<Rightarrow> error + fval" where
  "int_times_float n x =
     (case round64 (real n) of Fin r \<Rightarrow> Inr (fmul (Fin r) x) | _ \<Rightarrow> Inl OverflowError)"

text \<open>\<open>int(time_len * train_portion)\<close>\<close>

definition train_size_of :: "nat \<Rightarrow> fval \<Rightarrow> error + int" where
  "train_size_of time_len train_portion =
     (case int_times_float time_len train_portion of Inl e \<Rightarrow> Inl e | Inr x \<Rightarrow> py_int x)"

text \<open>\<open>m[:, lo:]\<close>\<close>

definition slice_cols_from :: "'a matrix \<Rightarrow> int \<Rightarrow> 'a matrix" where
  "slice_cols_from m lo =
     \<lparr>ncols = ncols m - slice_bound (ncols m) lo,
      rows = map (\<lambda>r. drop (slice_bound (length r) lo) r) (rows m)\<rparr>"

definition train_test_split :: "'a matrix \<Rightarrow> fval \<Rightarrow> error + ('a matrix \<times> 'a matrix)" where
  "train_test_split data train_portion =
     (let time_len = ncols data
      in case train_size_of time_len train_portion of
           Inl e \<Rightarrow> Inl e
         | Inr train_size \<Rightarrow>
             (let train_data = slice_cols data 0 train_size;
                  test_data = slice_cols_from data train_size
              in Inr (train_data, test_data)))"

section \<open>Scaling\<close>

definition elements :: "'a matrix \<Rightarrow> 'a list" where
  "elements m = concat (rows m)"

definition map_matrix :: "('a \<Rightarrow> 'b) \<Rightarrow> 'a matrix \<Rightarrow> 'b matrix" where
  "map_matrix f m = \<lparr>ncols = ncols m, rows = map (map f) (rows m)\<rparr>"

text \<open>\<open>m.max()\<close> and \<open>m.min()\<close> over all entries: ValueError on an array without entries.\<close>

definition np_max :: "fval matrix \<Rightarrow> error + fval" where
  "np_max m = (case elements m of [] \<Rightarrow> Inl ValueError | x # xs \<Rightarrow> Inr (fold fmax xs x))"

definition np_min :: "fval matrix \<Rightarrow> error + fval" where
  "np_min m = (case elements m of [] \<Rightarrow> Inl ValueError | x # xs \<Rightarrow> Inr (fold fmin xs x))"

text \<open>The entrywise expression \<open>(x - min_speed) / (max_speed - min_speed)\<close> of \<open>scale_data\<close>.\<close>

definition scale_value :: "fval \<Rightarrow> fval \<Rightarrow> fval \<Rightarrow> fval" where
  "scale_value min_speed max_speed x = fdiv (fsub x min_speed) (fsub max_speed min_speed)"

definition scale_data :: "fval matrix \<Rightarrow> fval matrix \<Rightarrow> error + (fval matrix \<times> fval matrix)" where
  "scale_data train_data test_data =
     (case np_max train_data of
        Inl e \<Rightarrow> Inl e
      | Inr max_speed \<Rightarrow>
          (case np_min train_data of
             Inl e \<Rightarrow> Inl e
           | Inr min_speed \<Rightarrow>
               Inr (map_matrix (scale_value min_speed max_speed) train_data,
                    map_matrix (scale_value min_speed max_speed) test_data)))"

section \<open>Rescaling for reporting\<close>





section \<open>Naive prediction benchmark\<close>



section \<open>Performance measures\<close>

text \<open>\<open>a.T[j]\<close> for an array \<open>a\<close> built by \<open>np.array\<close>: column \<open>j\<close> of a two-dimensional array.\<close>

definition transposed_row :: "'a list stacked \<Rightarrow> nat \<Rightarrow> error + 'a list" where
  "transposed_row a j =
     (case shape a of
        [e, n] \<Rightarrow> (if j < n then Inr (map (\<lambda>r. r ! j) (items a)) else Inl IndexError)
      | _ \<Rightarrow> Inl IndexError)"

text \<open>Subtraction of two one-dimensional arrays, with broadcasting of an array of length 1.\<close>

definition np_sub :: "fval list \<Rightarrow> fval list \<Rightarrow> error + fval list" where
  "np_sub xs ys =
     (if length xs = length ys then Inr (map2 fsub xs ys)
      else if length xs = 1 then Inr (map (fsub (hd xs)) ys)
      else if length ys = 1 then Inr (map (\<lambda>x. fsub x (hd ys)) xs)
      else Inl ValueError)"

text \<open>
  The sum of a one-dimensional array, in the order in which NumPy adds the entries: fewer
  than 8 entries from left to right; up to 128 entries with eight running sums that are
  added in pairs, the entries after the last full group of eight being added last; a longer
  array by halves, the first half a multiple of eight long.
\<close>

definition add_all :: "fval \<Rightarrow> fval list \<Rightarrow> fval" where
  "add_all res xs = fold (\<lambda>x acc. fadd acc x) xs res"

function accumulate8 :: "fval list \<Rightarrow> fval list \<Rightarrow> fval list" where
  "accumulate8 r xs =
     (if length xs < 8 then r else accumulate8 (map2 fadd r (take 8 xs)) (drop 8 xs))"
  by pat_completeness auto
termination
  by (relation "measure (\<lambda>(r, xs). length xs)") auto

declare accumulate8.simps [simp del]

definition block_sum :: "fval list \<Rightarrow> fval" where
  "block_sum xs =
     (let r = accumulate8 (take 8 xs) (drop 8 xs);
          res = fadd (fadd (fadd (r ! 0) (r ! 1)) (fadd (r ! 2) (r ! 3)))
                     (fadd (fadd (r ! 4) (r ! 5)) (fadd (r ! 6) (r ! 7)))
      in add_all res (drop (length xs - length xs mod 8) xs))"

function pairwise_sum :: "fval list \<Rightarrow> fval" where
  "pairwise_sum xs =
     (if length xs < 8 then add_all (Fin 0) xs
      else if length xs \<le> 128 then block_sum xs
      else (let n2 = length xs div 2 - (length xs div 2) mod 8
            in fadd (pairwise_sum (take n2 xs)) (pairwise_sum (drop n2 xs))))"
  by pat_completeness auto
termination
  by (relation "measure length") auto

declare pairwise_sum.simps [simp del]

definition np_sum :: "fval list \<Rightarrow> fval" where
  "np_sum xs = fadd (Fin 0) (pairwise_sum xs)"

text \<open>\<open>np.mean\<close> of a one-dimensional array: the sum divided by the count; \<open>nan\<close> on the
  empty array (0 / 0).\<close>

definition np_mean :: "fval list \<Rightarrow> fval" where
  "np_mean xs = fdiv (np_sum xs) (round64 (real (length xs)))"

text \<open>
  \<open>np.nanmean\<close>: every \<open>nan\<close> is replaced by 0 before the entries are added, and the sum
  is divided by the number of entries that are not \<open>nan\<close>.
\<close>

definition np_nanmean :: "fval list \<Rightarrow> fval" where
  "np_nanmean xs =
     fdiv (np_sum (map (\<lambda>x. if x = NaN then Fin 0 else x) xs))
          (round64 (real (length (filter (\<lambda>x. x \<noteq> NaN) xs))))"

text \<open>\<open>np.mean(np.abs(a.T[j] - b.T[j]))\<close>\<close>

definition mean_abs_error :: "fval list stacked \<Rightarrow> fval list stacked \<Rightarrow> nat \<Rightarrow> error + fval" where
  "mean_abs_error a b j =
     (case transposed_row a j of
        Inl e \<Rightarrow> Inl e
      | Inr aj \<Rightarrow>
          (case transposed_row b j of
             Inl e \<Rightarrow> Inl e
           | Inr bj \<Rightarrow>
               (case np_sub aj bj of
                  Inl e \<Rightarrow> Inl e
                | Inr d \<Rightarrow> Inr (np_mean (map fabs d)))))"

text \<open>The body of the loop over \<open>j\<close>, on the lists \<open>seg_mael\<close>, \<open>seg_masel\<close>, \<open>seg_nmael\<close>.\<close>

fun performance_loop ::
  "fval list stacked \<Rightarrow> fval list stacked \<Rightarrow> fval list stacked \<Rightarrow> nat list
     \<Rightarrow> fval list \<times> fval list \<times> fval list
     \<Rightarrow> error + (fval list \<times> fval list \<times> fval list)" where
  "performance_loop test_rescref test_rescpred testnpredc [] (seg_mael, seg_masel, seg_nmael) =
     Inr (seg_mael, seg_masel, seg_nmael)"
| "performance_loop test_rescref test_rescpred testnpredc (j # js) (seg_mael, seg_masel, seg_nmael) =
     (case mean_abs_error test_rescref test_rescpred j of
        Inl e \<Rightarrow> Inl e
      | Inr mae \<Rightarrow>
          (case mean_abs_error test_rescref testnpredc j of
             Inl e \<Rightarrow> Inl e
           | Inr nmae \<Rightarrow>
               performance_loop test_rescref test_rescpred testnpredc js
                 (seg_mael @ [mae],
                  (if nmae \<noteq> Fin 0 then seg_masel @ [fdiv mae nmae] else seg_masel @ [NaN]),
                  seg_nmael @ [nmae])))"

record measures =
  seg_mael :: "fval list"
  seg_masel :: "fval list"
  seg_nmael :: "fval list"
  total_mae :: fval
  total_nmae :: fval
  total_mase :: fval

text \<open>\<open>a.shape[-1]\<close>\<close>

definition shape_last :: "'e stacked \<Rightarrow> error + nat" where
  "shape_last a = (case shape a of [] \<Rightarrow> Inl IndexError | d # ds \<Rightarrow> Inr (last (d # ds)))"

definition performance_measures ::
  "fval matrix stacked \<Rightarrow> fval list stacked \<Rightarrow> fval list stacked \<Rightarrow> fval list stacked
     \<Rightarrow> error + measures" where
  "performance_measures testX test_rescref test_rescpred testnpredc =
     (case shape_last testX of
        Inl e \<Rightarrow> Inl e
      | Inr n \<Rightarrow>
          (case performance_loop test_rescref test_rescpred testnpredc (py_range (int n)) ([], [], []) of
             Inl e \<Rightarrow> Inl e
           | Inr (mael, masel, nmael) \<Rightarrow>
               Inr \<lparr>seg_mael = mael, seg_masel = masel, seg_nmael = nmael,
                    total_mae = np_mean mael, total_nmae = np_mean nmael,
                    total_mase = np_nanmean masel\<rparr>))"

section \<open>Statements of the specification\<close>

text \<open>
  The specification's description of the example with start index \<open>i\<close>: the input window is
  columns \<open>[i, i + seq_len)\<close> of all rows, the target is column \<open>i + seq_len + pre_len - 1\<close>
  of all rows.
\<close>

definition spec_window :: "'a matrix \<Rightarrow> nat \<Rightarrow> nat \<Rightarrow> 'a matrix" where
  "spec_window m i seq_len =
     \<lparr>ncols = seq_len, rows = map (\<lambda>r. take seq_len (drop i r)) (rows m)\<rparr>"

definition spec_target :: "'a matrix \<Rightarrow> nat \<Rightarrow> nat \<Rightarrow> nat \<Rightarrow> 'a list" where
  "spec_target m i seq_len pre_len = map (\<lambda>r. r ! (i + seq_len + pre_len - 1)) (rows m)"

text \<open>
  The arrays \<open>X\<close>, \<open>Y\<close> hold exactly \<open>T - (seq_len + pre_len - 1)\<close> examples of the matrix
  \<open>m\<close>, in increasing order of the start index.
\<close>

definition windowed ::
  "int \<Rightarrow> int \<Rightarrow> 'a matrix \<Rightarrow> 'a matrix stacked \<Rightarrow> 'a list stacked \<Rightarrow> bool" where
  "windowed seq_len pre_len m X Y =
     (let n = ncols m - (nat seq_len + nat pre_len - 1) in
        shape X = [n, length (rows m), nat seq_len] \<and> shape Y = [n, length (rows m)] \<and>
        length (items X) = n \<and> length (items Y) = n \<and>
        (\<forall>i<n. items X ! i = spec_window m i (nat seq_len) \<and>
               items Y ! i = spec_target m i (nat seq_len) (nat pre_len)))"

text \<open>The empty one-dimensional array, of shape \<open>(0,)\<close>.\<close>

definition empty_array :: "'e stacked" where
  "empty_array = \<lparr>shape = [0], items = []\<rparr>"


text \<open>
  The per-sensor quantities of the specification: the series of sensor \<open>j\<close> in an array of
  shape \<open>(examples, sensors)\<close>, the mean absolute error of sensor \<open>j\<close> between two such
  arrays, and the scaled error, undefined (\<open>nan\<close>) when the naive error is zero.
\<close>

definition sensor_series :: "'a list stacked \<Rightarrow> nat \<Rightarrow> 'a list" where
  "sensor_series a j = map (\<lambda>r. r ! j) (items a)"

definition sensor_mae :: "fval list stacked \<Rightarrow> fval list stacked \<Rightarrow> nat \<Rightarrow> fval" where
  "sensor_mae a b j = np_mean (map fabs (map2 fsub (sensor_series a j) (sensor_series b j)))"

definition scaled_error :: "fval \<Rightarrow> fval \<Rightarrow> fval" where
  "scaled_error mae nmae = (if nmae \<noteq> Fin 0 then fdiv mae nmae else NaN)"

text \<open>A float in the unit interval \<open>[0, 1]\<close>.\<close>

fun in_unit_interval :: "fval \<Rightarrow> bool" where
  "in_unit_interval (Fin r) = (0 \<le> r \<and> r \<le> 1)"
| "in_unit_interval a = False"


section \<open>The preprocessing functions on arrays in a store\<close>

text \<open>
  NumPy arrays are objects that share memory: a basic slice is a view of the array it is
  taken from, while \<open>np.array\<close> and the arithmetic operators write their result to a buffer
  of their own.  The store holds the buffers; an address is an index into it, and a new
  buffer is appended.  A view is a buffer or a column slice of a view.
\<close>

record 'a store =
  mats :: "'a matrix list"
  stacks3 :: "'a matrix stacked list"
  stacks2 :: "'a list stacked list"

datatype view2 = Base nat | Cols view2 int int | ColsFrom view2 int

datatype view1 = LastCol view2

text \<open>The buffer a view reads from.\<close>

fun base_of :: "view2 \<Rightarrow> nat" where
  "base_of (Base a) = a"
| "base_of (Cols v lo hi) = base_of v"
| "base_of (ColsFrom v lo) = base_of v"

text \<open>The contents seen through a view.\<close>

fun read2 :: "'a store \<Rightarrow> view2 \<Rightarrow> 'a matrix" where
  "read2 s (Base a) = mats s ! a"
| "read2 s (Cols v lo hi) = slice_cols (read2 s v) lo hi"
| "read2 s (ColsFrom v lo) = slice_cols_from (read2 s v) lo"

fun read1 :: "'a store \<Rightarrow> view1 \<Rightarrow> 'a list" where
  "read1 s (LastCol v) = map last (rows (read2 s v))"

text \<open>\<open>v[:, -1]\<close>: a view of the last column; IndexError when \<open>v\<close> has no column.\<close>

definition last_col_view :: "'a store \<Rightarrow> view2 \<Rightarrow> error + view1" where
  "last_col_view s v = (if ncols (read2 s v) = 0 then Inl IndexError else Inr (LastCol v))"

definition alloc_mat :: "'a matrix \<Rightarrow> 'a store \<Rightarrow> 'a store \<times> view2" where
  "alloc_mat m s = (s\<lparr>mats := mats s @ [m]\<rparr>, Base (length (mats s)))"

definition alloc_stack3 :: "'a matrix stacked \<Rightarrow> 'a store \<Rightarrow> 'a store \<times> nat" where
  "alloc_stack3 a s = (s\<lparr>stacks3 := stacks3 s @ [a]\<rparr>, length (stacks3 s))"

definition alloc_stack2 :: "'a list stacked \<Rightarrow> 'a store \<Rightarrow> 'a store \<times> nat" where
  "alloc_stack2 a s = (s\<lparr>stacks2 := stacks2 s @ [a]\<rparr>, length (stacks2 s))"

text \<open>\<open>np.array(v)\<close> of a two-dimensional view: a copy in a new buffer.\<close>

definition np_array_copy :: "view2 \<Rightarrow> 'a store \<Rightarrow> 'a store \<times> view2" where
  "np_array_copy v s = alloc_mat (read2 s v) s"

text \<open>An arithmetic operator applied entrywise: the result is a new array.\<close>

definition np_entrywise :: "('a \<Rightarrow> 'a) \<Rightarrow> view2 \<Rightarrow> 'a store \<Rightarrow> 'a store \<times> view2" where
  "np_entrywise f v s = alloc_mat (map_matrix f (read2 s v)) s"

text \<open>\<open>train_test_split\<close>: an error is raised before anything is allocated.\<close>

definition train_test_split_st ::
  "view2 \<Rightarrow> fval \<Rightarrow> 'a store \<Rightarrow> 'a store \<times> (error + view2 \<times> view2)" where
  "train_test_split_st data train_portion s =
     (let time_len = ncols (read2 s data)
      in case train_size_of time_len train_portion of
           Inl e \<Rightarrow> (s, Inl e)
         | Inr train_size \<Rightarrow>
             (let (s1, train_data) = np_array_copy (Cols data 0 train_size) s;
                  (s2, test_data) = np_array_copy (ColsFrom data train_size) s1
              in (s2, Inr (train_data, test_data))))"

text \<open>
  \<open>scale_data\<close>: each of \<open>x - min_speed\<close> and \<open>\<dots> / (max_speed - min_speed)\<close> makes a new
  array.  An error is raised before anything is allocated.
\<close>

definition scale_data_st ::
  "view2 \<Rightarrow> view2 \<Rightarrow> fval store \<Rightarrow> fval store \<times> (error + view2 \<times> view2)" where
  "scale_data_st train_data test_data s =
     (case np_max (read2 s train_data) of
        Inl e \<Rightarrow> (s, Inl e)
      | Inr max_speed \<Rightarrow>
          (case np_min (read2 s train_data) of
             Inl e \<Rightarrow> (s, Inl e)
           | Inr min_speed \<Rightarrow>
               (let (s1, t1) = np_entrywise (\<lambda>x. fsub x min_speed) train_data s;
                    (s2, train_scaled) =
                       np_entrywise (\<lambda>x. fdiv x (fsub max_speed min_speed)) t1 s1;
                    (s3, t2) = np_entrywise (\<lambda>x. fsub x min_speed) test_data s2;
                    (s4, test_scaled) =
                       np_entrywise (\<lambda>x. fdiv x (fsub max_speed min_speed)) t2 s3
                in (s4, Inr (train_scaled, test_scaled)))))"

text \<open>
  The loop of \<open>sequence_data_preparation\<close> collects views of its argument in two Python
  lists and allocates nothing.
\<close>

fun prepare_loop_st ::
  "'a store \<Rightarrow> int \<Rightarrow> int \<Rightarrow> view2 \<Rightarrow> nat list \<Rightarrow> view2 list \<times> view1 list
     \<Rightarrow> error + (view2 list \<times> view1 list)" where
  "prepare_loop_st s seq_len pre_len data [] (X, Y) = Inr (X, Y)"
| "prepare_loop_st s seq_len pre_len data (i # is) (X, Y) =
     (let a = Cols data (int i) (int i + seq_len + pre_len)
      in case last_col_view s a of
           Inl e \<Rightarrow> Inl e
         | Inr y \<Rightarrow> prepare_loop_st s seq_len pre_len data is (X @ [Cols a 0 seq_len], Y @ [y]))"

text \<open>\<open>np.array\<close> of a Python list of views: the stacked contents, in a new buffer.\<close>

definition np_array_stack3 :: "view2 list \<Rightarrow> 'a store \<Rightarrow> 'a store \<times> nat" where
  "np_array_stack3 vs s = alloc_stack3 (np_array matrix_shape (map (read2 s) vs)) s"

definition np_array_stack2 :: "view1 list \<Rightarrow> 'a store \<Rightarrow> 'a store \<times> nat" where
  "np_array_stack2 vs s = alloc_stack2 (np_array vector_shape (map (read1 s) vs)) s"

text \<open>
  \<open>sequence_data_preparation\<close>: an error is raised inside the loops, before anything is
  allocated; the four results are the buffers made by \<open>np.array\<close>.
\<close>

definition sequence_data_preparation_st ::
  "int \<Rightarrow> int \<Rightarrow> view2 \<Rightarrow> view2 \<Rightarrow> 'a store
     \<Rightarrow> 'a store \<times> (error + nat \<times> nat \<times> nat \<times> nat)" where
  "sequence_data_preparation_st seq_len pre_len train_data test_data s =
     (case prepare_loop_st s seq_len pre_len train_data
             (py_range (int (ncols (read2 s train_data)) - (seq_len + pre_len - 1))) ([], []) of
        Inl e \<Rightarrow> (s, Inl e)
      | Inr (trainX, trainY) \<Rightarrow>
          (case prepare_loop_st s seq_len pre_len test_data
                  (py_range (int (ncols (read2 s test_data)) - (seq_len + pre_len - 1))) ([], []) of
             Inl e \<Rightarrow> (s, Inl e)
           | Inr (testX, testY) \<Rightarrow>
               (let (s1, trainX') = np_array_stack3 trainX s;
                    (s2, trainY') = np_array_stack2 trainY s1;
                    (s3, testX') = np_array_stack3 testX s2;
                    (s4, testY') = np_array_stack2 testY s3
                in (s4, Inr (trainX', trainY', testX', testY')))))"

text \<open>The three preprocessing cells of the notebook, run one after the other.\<close>

definition preprocess_st ::
  "view2 \<Rightarrow> fval \<Rightarrow> int \<Rightarrow> int \<Rightarrow> fval store
     \<Rightarrow> fval store \<times> (error + nat \<times> nat \<times> nat \<times> nat)" where
  "preprocess_st speed_data train_rate seq_len pre_len s =
     (case train_test_split_st speed_data train_rate s of
        (s1, Inl e) \<Rightarrow> (s1, Inl e)
      | (s1, Inr (train_data, test_data)) \<Rightarrow>
          (case scale_data_st train_data test_data s1 of
             (s2, Inl e) \<Rightarrow> (s2, Inl e)
           | (s2, Inr (train_scaled, test_scaled)) \<Rightarrow>
               sequence_data_preparation_st seq_len pre_len train_scaled test_scaled s2))"

text \<open>Every buffer of the store \<open>s\<close> is in the store \<open>s'\<close>, at its address and with its contents.\<close>

definition unchanged :: "'a store \<Rightarrow> 'a store \<Rightarrow> bool" where
  "unchanged s s' =
     (take (length (mats s)) (mats s') = mats s \<and>
      take (length (stacks3 s)) (stacks3 s') = stacks3 s \<and>
      take (length (stacks2 s)) (stacks2 s') = stacks2 s)"

section \<open>Properties of the rounding\<close>

lemma round_even_of_int: "round_even (of_int n) = n"
  by (simp add: round_even_def)

lemma round_even_cases: "round_even x = \<lfloor>x\<rfloor> \<or> round_even x = \<lfloor>x\<rfloor> + 1"
  by (simp add: round_even_def Let_def)

lemma round_even_ge_floor: "\<lfloor>x\<rfloor> \<le> round_even x"
  using round_even_cases[of x] by auto

lemma round_even_le_floor: "round_even x \<le> \<lfloor>x\<rfloor> + 1"
  using round_even_cases[of x] by auto

lemma round_even_mono:
  assumes "x \<le> y"
  shows "round_even x \<le> round_even y"
proof (cases "\<lfloor>x\<rfloor> = \<lfloor>y\<rfloor>")
  case True
  then show ?thesis
    using assms by (auto simp: round_even_def Let_def)
next
  case False
  then have "\<lfloor>x\<rfloor> < \<lfloor>y\<rfloor>"
    using floor_mono[OF assms] by simp
  then show ?thesis
    using round_even_le_floor[of x] round_even_ge_floor[of y] by linarith
qed


lemma round_even_minus: "round_even (- x) = - round_even x"
proof (cases "x = of_int \<lfloor>x\<rfloor>")
  case True
  then obtain n where "x = of_int n" ..
  then show ?thesis
    by (simp add: round_even_of_int flip: of_int_minus)
next
  case False
  then have f: "\<lfloor>- x\<rfloor> = - \<lfloor>x\<rfloor> - 1"
    by (simp add: floor_minus ceiling_altdef)
  have e: "even (- \<lfloor>x\<rfloor> - 1) = odd \<lfloor>x\<rfloor>"
    by simp
  show ?thesis
    unfolding round_even_def Let_def f e
    by auto
qed

lemma round_even_ge: "of_int m \<le> x \<Longrightarrow> m \<le> round_even x"
  using round_even_mono[of "of_int m" x] by (simp add: round_even_of_int)

lemma round_even_le: "x \<le> of_int m \<Longrightarrow> round_even x \<le> m"
  using round_even_mono[of x "of_int m"] by (simp add: round_even_of_int)

lemma ulp_pos: "0 < ulp x"
  by (simp add: ulp_def zero_less_power_int)

lemma exponent_minus: "exponent (- x) = exponent x"
  by (simp add: exponent_def)

lemma ulp_minus: "ulp (- x) = ulp x"
  by (simp add: ulp_def exponent_minus)

lemma round_finite_minus: "round_finite (- x) = - round_finite x"
  by (simp add: round_finite_def ulp_minus round_even_minus)

lemma round_finite_0: "round_finite 0 = 0"
  by (simp add: round_finite_def round_even_def)

lemma powr_2_int: "2 powr real_of_int k = (2::real) powi k"
  by (simp add: powr_real_of_int')

lemma floor_log2_bounds:
  assumes "0 < x"
  shows "2 powi \<lfloor>log 2 x\<rfloor> \<le> x" "x < 2 powi (\<lfloor>log 2 x\<rfloor> + 1)"
proof -
  have one: "(1::real) < 2"
    by simp
  have "2 powr real_of_int \<lfloor>log 2 x\<rfloor> \<le> x \<and> x < 2 powr real_of_int (\<lfloor>log 2 x\<rfloor> + 1)"
    using floor_log_eq_powr_iff[OF assms one, of "\<lfloor>log 2 x\<rfloor>"] by blast
  then show "2 powi \<lfloor>log 2 x\<rfloor> \<le> x" "x < 2 powi (\<lfloor>log 2 x\<rfloor> + 1)"
    by (simp_all only: powr_2_int)
qed

lemma floor_log2_eq:
  assumes "0 < x" "2 powi e \<le> x" "x < 2 powi (e + 1)"
  shows "\<lfloor>log 2 x\<rfloor> = e"
proof -
  have "2 powr real_of_int e \<le> x \<and> x < 2 powr real_of_int (e + 1)"
    using assms(2,3) by (simp only: powr_2_int)
  moreover have "(1::real) < 2"
    by simp
  ultimately show ?thesis
    using floor_log_eq_powr_iff[OF assms(1), of 2 e] by blast
qed

lemma powi2_div: "(2::real) powi a / 2 powi b = 2 powi (a - b)"
  by (simp add: power_int_diff)

lemma powi2_mult: "(2::real) powi a * 2 powi b = 2 powi (a + b)"
  by (simp add: power_int_add)

lemma ulp_scale: "2 powi (exponent x + k) / ulp x = 2 powi (52 + k)"
  unfolding ulp_def powi2_div by (rule arg_cong[where f="\<lambda>e. 2 powi e"]) simp

lemma ulp_unscale: "2 powi (52 + k) * ulp x = 2 powi (exponent x + k)"
  unfolding ulp_def powi2_mult by (rule arg_cong[where f="\<lambda>e. 2 powi e"]) simp

lemma exponent_upper:
  assumes "0 < x"
  shows "x < 2 powi (exponent x + 1)"
proof -
  have "x < 2 powi (\<lfloor>log 2 x\<rfloor> + 1)"
    by (rule floor_log2_bounds[OF assms])
  also have "\<dots> \<le> 2 powi (exponent x + 1)"
    using assms by (intro power_int_increasing) (simp_all add: exponent_def)
  finally show ?thesis .
qed

lemma exponent_lower:
  assumes "0 < x" "- 1022 < exponent x"
  shows "2 powi exponent x \<le> x"
proof -
  have "exponent x = \<lfloor>log 2 x\<rfloor>"
    using assms by (simp add: exponent_def max_def split: if_splits)
  then show ?thesis
    using floor_log2_bounds(1)[OF assms(1)] by simp
qed

lemma exponent_mono:
  assumes "0 < x" "x \<le> y"
  shows "exponent x \<le> exponent y"
proof -
  have ax: "\<bar>x\<bar> = x" "\<bar>y\<bar> = y"
    using assms by simp_all
  have "log 2 x \<le> log 2 y"
    using assms by simp
  then have "\<lfloor>log 2 x\<rfloor> \<le> \<lfloor>log 2 y\<rfloor>"
    by (rule floor_mono)
  then show ?thesis
    unfolding exponent_def ax by (rule max.mono) (rule order_refl)
qed

lemma round_finite_nonneg: "0 \<le> x \<Longrightarrow> 0 \<le> round_finite x"
  unfolding round_finite_def
  using round_even_ge[of 0 "x / ulp x"] ulp_pos[of x] by simp

lemma round_finite_mono_pos:
  assumes "0 < x" "x \<le> y"
  shows "round_finite x \<le> round_finite y"
proof (cases "exponent x = exponent y")
  case True
  then have u: "ulp x = ulp y"
    by (simp add: ulp_def)
  have "x / ulp y \<le> y / ulp y"
    using assms(2) ulp_pos[of y] by (simp add: divide_right_mono)
  then have "round_even (x / ulp y) \<le> round_even (y / ulp y)"
    by (rule round_even_mono)
  then show ?thesis
    unfolding round_finite_def u using ulp_pos[of y] by simp
next
  case False
  have y: "0 < y"
    using assms by simp
  have lt: "exponent x < exponent y"
    using exponent_mono[OF assms] False by simp
  have "x / ulp x \<le> 2 powi (exponent x + 1) / ulp x"
    using exponent_upper[OF assms(1)] ulp_pos[of x] by (simp add: divide_right_mono)
  also have "2 powi (exponent x + 1) / ulp x = (2::real) powi 53"
    using ulp_scale[of x 1] by simp
  finally have "x / ulp x \<le> of_int (2 ^ 53)"
    by simp
  then have "round_even (x / ulp x) \<le> 2 ^ 53"
    by (rule round_even_le)
  then have "real_of_int (round_even (x / ulp x)) \<le> real_of_int (2 ^ 53)"
    by (simp only: of_int_le_iff)
  then have "round_finite x \<le> 2 powi 53 * ulp x"
    unfolding round_finite_def using ulp_pos[of x] by simp
  also have "2 powi 53 * ulp x = 2 powi (exponent x + 1)"
    using ulp_unscale[of 1 x] by simp
  finally have a: "round_finite x \<le> 2 powi (exponent x + 1)" .
  have e: "- 1022 < exponent y"
    using lt by (simp add: exponent_def)
  have "2 powi exponent y / ulp y \<le> y / ulp y"
    using exponent_lower[OF y e] ulp_pos[of y] by (simp add: divide_right_mono)
  moreover have "2 powi exponent y / ulp y = (2::real) powi 52"
    using ulp_scale[of y 0] by simp
  ultimately have "of_int (2 ^ 52) \<le> y / ulp y"
    by simp
  then have "2 ^ 52 \<le> round_even (y / ulp y)"
    by (rule round_even_ge)
  then have "real_of_int (2 ^ 52) \<le> real_of_int (round_even (y / ulp y))"
    by (simp only: of_int_le_iff)
  then have "2 powi 52 * ulp y \<le> round_finite y"
    unfolding round_finite_def using ulp_pos[of y] by simp
  moreover have "2 powi 52 * ulp y = 2 powi exponent y"
    using ulp_unscale[of 0 y] by simp
  ultimately have b: "2 powi exponent y \<le> round_finite y"
    by simp
  have "(2::real) powi (exponent x + 1) \<le> 2 powi exponent y"
    using lt by (intro power_int_increasing) simp_all
  then show ?thesis
    using a b by linarith
qed

lemma round_finite_mono:
  assumes "x \<le> y"
  shows "round_finite x \<le> round_finite y"
proof -
  consider "0 < x" | "x \<le> 0" "0 \<le> y" | "y < 0"
    using assms by linarith
  then show ?thesis
  proof cases
    case 1
    then show ?thesis
      using assms by (rule round_finite_mono_pos)
  next
    case 2
    have "round_finite x \<le> 0"
      using round_finite_nonneg[of "- x"] 2(1) by (simp add: round_finite_minus)
    then show ?thesis
      using round_finite_nonneg[OF 2(2)] by linarith
  next
    case 3
    have "round_finite (- y) \<le> round_finite (- x)"
      using 3 assms by (intro round_finite_mono_pos) simp_all
    then show ?thesis
      by (simp add: round_finite_minus)
  qed
qed

lemma exponent_le:
  assumes "x \<noteq> 0" "\<bar>x\<bar> < 2 powi (k + 1)" "- 1022 \<le> k"
  shows "exponent x \<le> k"
proof -
  have p: "0 < \<bar>x\<bar>"
    using assms(1) by simp
  have "\<lfloor>log 2 \<bar>x\<bar>\<rfloor> \<le> k"
  proof (rule ccontr)
    assume "\<not> \<lfloor>log 2 \<bar>x\<bar>\<rfloor> \<le> k"
    then have "k + 1 \<le> \<lfloor>log 2 \<bar>x\<bar>\<rfloor>"
      by simp
    then have "(2::real) powi (k + 1) \<le> 2 powi \<lfloor>log 2 \<bar>x\<bar>\<rfloor>"
      by (intro power_int_increasing) simp_all
    then show False
      using floor_log2_bounds(1)[OF p] assms(2) by linarith
  qed
  then show ?thesis
    using assms(3) by (simp add: exponent_def)
qed

lemma abs_of_int_less_powi:
  assumes "\<bar>m\<bar> < 2 ^ n"
  shows "\<bar>real_of_int m\<bar> < 2 powi int n"
proof -
  have "real_of_int \<bar>m\<bar> < real_of_int (2 ^ n)"
    using assms by (simp only: of_int_less_iff)
  then show ?thesis
    by (simp add: power_int_of_nat)
qed

text \<open>A number with a significand below \<open>2 ^ 53\<close> and a binary64 exponent is not changed.\<close>

lemma round_finite_fix:
  assumes "\<bar>m\<bar> < 2 ^ 53" "- 1074 \<le> j"
  shows "round_finite (of_int m * 2 powi j) = of_int m * 2 powi j"
proof (cases "m = 0")
  case True
  then show ?thesis
    by (simp add: round_finite_0)
next
  case False
  let ?x = "real_of_int m * 2 powi j"
  define K where "K = max (52 + j) (- 1022)"
  have x0: "?x \<noteq> 0"
    using False by simp
  have "\<bar>?x\<bar> = \<bar>real_of_int m\<bar> * 2 powi j"
    by (simp add: abs_mult power_int_abs)
  also have "\<dots> < 2 powi 53 * 2 powi j"
    using abs_of_int_less_powi[OF assms(1)]
    by (intro mult_strict_right_mono) (simp_all add: zero_less_power_int)
  also have "\<dots> = 2 powi (53 + j)"
    by (rule powi2_mult)
  also have "\<dots> \<le> 2 powi (K + 1)"
    by (intro power_int_increasing) (simp_all add: K_def)
  finally have "\<bar>?x\<bar> < 2 powi (K + 1)" .
  moreover have "- 1022 \<le> K"
    by (simp add: K_def)
  ultimately have e: "exponent ?x \<le> K"
    by (rule exponent_le[OF x0])
  define d where "d = j - (exponent ?x - 52)"
  have d: "0 \<le> d"
    using e assms(2) by (simp add: d_def K_def max_def split: if_splits)
  have "?x / ulp ?x = real_of_int m * (2 powi j / 2 powi (exponent ?x - 52))"
    by (simp add: ulp_def)
  also have "2 powi j / 2 powi (exponent ?x - 52) = (2::real) powi d"
    unfolding d_def by (rule powi2_div)
  also have "(2::real) powi d = real_of_int (2 ^ nat d)"
    using d by (simp add: power_int_def)
  finally have q: "?x / ulp ?x = real_of_int (m * 2 ^ nat d)"
    by simp
  have "round_finite ?x = real_of_int (m * 2 ^ nat d) * ulp ?x"
    unfolding round_finite_def q round_even_of_int ..
  also have "\<dots> = ?x / ulp ?x * ulp ?x"
    unfolding q ..
  also have "\<dots> = ?x"
    using ulp_pos[of ?x] by simp
  finally show ?thesis .
qed

text \<open>Rounding at a known exponent.\<close>

lemma exponent_eq:
  assumes "2 powi e \<le> \<bar>x\<bar>" "\<bar>x\<bar> < 2 powi (e + 1)" "- 1022 \<le> e"
  shows "exponent x = e"
proof -
  have "0 < \<bar>x\<bar>"
    using assms(1) zero_less_power_int[of "2::real" e] by linarith
  then have "\<lfloor>log 2 \<bar>x\<bar>\<rfloor> = e"
    using assms(1,2) by (rule floor_log2_eq)
  then show ?thesis
    using assms(3) by (simp add: exponent_def)
qed

lemma round_finite_at:
  assumes "2 powi e \<le> \<bar>x\<bar>" "\<bar>x\<bar> < 2 powi (e + 1)" "- 1022 \<le> e"
  shows "round_finite x = of_int (round_even (x / 2 powi (e - 52))) * 2 powi (e - 52)"
  by (simp add: round_finite_def ulp_def exponent_eq[OF assms])

text \<open>The rounded value is monotone, also across overflow.\<close>

lemma round64_finite_iff: "(round64 x = Fin r) = (r = round_finite x \<and> \<bar>round_finite x\<bar> < 2 ^ 1024)"
  by (auto simp: round64_def Let_def)

lemma round64_fix:
  assumes "\<bar>m\<bar> < 2 ^ 53" "- 1074 \<le> j" "j \<le> 971"
  shows "round64 (of_int m * 2 powi j) = Fin (of_int m * 2 powi j)"
proof -
  let ?x = "real_of_int m * 2 powi j"
  have "\<bar>?x\<bar> = \<bar>real_of_int m\<bar> * 2 powi j"
    by (simp add: abs_mult power_int_abs)
  also have "\<dots> \<le> 2 powi 53 * 2 powi j"
    using abs_of_int_less_powi[OF assms(1)]
    by (intro mult_right_mono) (simp_all add: zero_le_power_int)
  also have "\<dots> = 2 powi (53 + j)"
    by (rule powi2_mult)
  also have "\<dots> \<le> 2 powi 1024"
    using assms(3) by (intro power_int_increasing) simp_all
  finally have "\<bar>?x\<bar> \<le> 2 powi 1024" .
  moreover have "\<bar>?x\<bar> \<noteq> 2 powi 1024"
  proof
    assume eq: "\<bar>?x\<bar> = 2 powi 1024"
    have "\<bar>?x\<bar> < 2 powi 53 * 2 powi j"
      unfolding \<open>\<bar>?x\<bar> = \<bar>real_of_int m\<bar> * 2 powi j\<close>
      using abs_of_int_less_powi[OF assms(1)]
      by (intro mult_strict_right_mono) (simp_all add: zero_less_power_int)
    also have "\<dots> = 2 powi (53 + j)"
      by (rule powi2_mult)
    also have "\<dots> \<le> 2 powi 1024"
      using assms(3) by (intro power_int_increasing) simp_all
    finally show False
      using eq by simp
  qed
  ultimately have "\<bar>?x\<bar> < 2 powi 1024"
    by simp
  then have "\<bar>round_finite ?x\<bar> < 2 ^ 1024"
    unfolding round_finite_fix[OF assms(1,2)] by (simp only: power_int_numeral)
  then show ?thesis
    by (simp only: round64_finite_iff round_finite_fix[OF assms(1,2)])
qed

lemma round64_cases:
  "round64 x = Fin (round_finite x) \<and> \<bar>round_finite x\<bar> < 2 ^ 1024 \<or>
   round64 x = PInf \<and> 0 < x \<and> 2 ^ 1024 \<le> round_finite x \<or>
   round64 x = NInf \<and> x < 0 \<and> round_finite x \<le> - (2 ^ 1024)"
proof -
  have p: "0 < x" if "0 < round_finite x"
  proof (rule ccontr)
    assume "\<not> 0 < x"
    then have "round_finite x \<le> round_finite 0"
      by (intro round_finite_mono) simp
    then show False
      using that by (simp add: round_finite_0)
  qed
  have n: "x < 0" if "round_finite x < 0"
  proof (rule ccontr)
    assume "\<not> x < 0"
    then have "round_finite 0 \<le> round_finite x"
      by (intro round_finite_mono) simp
    then show False
      using that by (simp add: round_finite_0)
  qed
  show ?thesis
    using p n by (auto simp: round64_def Let_def abs_if split: if_splits)
qed

lemma round64_mono:
  assumes "x \<le> y"
  shows "fle (round64 x) (round64 y)"
  using round_finite_mono[OF assms] round64_cases[of x] round64_cases[of y]
  by (elim disjE conjE) simp_all

text \<open>Between two numbers that round to finite values, a number rounds to a finite value.\<close>

lemma round64_between:
  assumes "a \<le> x" "x \<le> b" "round64 a = Fin a'" "round64 b = Fin b'"
  shows "\<exists>r. round64 x = Fin r \<and> a' \<le> r \<and> r \<le> b'"
proof -
  have "fle (Fin a') (round64 x)" "fle (round64 x) (Fin b')"
    using round64_mono[OF assms(1)] round64_mono[OF assms(2)] assms(3,4) by simp_all
  then show ?thesis
    by (cases "round64 x") simp_all
qed

lemma round64_0: "round64 0 = Fin 0"
  by (simp add: round64_def round_finite_0)

lemma round64_of_int:
  assumes "\<bar>m\<bar> < 2 ^ 53"
  shows "round64 (of_int m) = Fin (of_int m)"
  using round64_fix[OF assms, of 0] by simp

lemma round64_dyadic:
  assumes "\<bar>m\<bar> < 2 ^ 53" "k \<le> 1074"
  shows "round64 (of_int m / 2 ^ k) = Fin (of_int m / 2 ^ k)"
proof -
  have "real_of_int m * 2 powi (- int k) = real_of_int m / 2 ^ k"
    by (simp add: power_int_minus field_simps)
  then show ?thesis
    using round64_fix[OF assms(1), of "- int k"] assms(2) by simp
qed

lemma round64_numeral [simp]:
  "(numeral k :: int) < 2 ^ 53 \<Longrightarrow> round64 (numeral k) = Fin (numeral k)"
  using round64_of_int[of "numeral k"] by simp

lemma round64_neg_numeral [simp]:
  "(numeral k :: int) < 2 ^ 53 \<Longrightarrow> round64 (- numeral k) = Fin (- numeral k)"
  using round64_of_int[of "- numeral k"] by simp

lemma round64_1 [simp]: "round64 1 = Fin 1"
  using round64_of_int[of 1] by simp

lemma round64_halves [simp]:
  "(numeral k :: int) < 2 ^ 53 \<Longrightarrow> round64 (numeral k / 2) = Fin (numeral k / 2)"
  "round64 (1 / 2) = Fin (1 / 2)"
  "(numeral k :: int) < 2 ^ 53 \<Longrightarrow> round64 (numeral k / 4) = Fin (numeral k / 4)"
  "round64 (1 / 4) = Fin (1 / 4)"
  using round64_dyadic[of "numeral k" 1] round64_dyadic[of 1 1]
        round64_dyadic[of "numeral k" 2] round64_dyadic[of 1 2]
  by simp_all


lemma round_finite_abs: "round_finite \<bar>x\<bar> = \<bar>round_finite x\<bar>"
proof (cases "0 \<le> x")
  case True
  then show ?thesis
    using round_finite_nonneg[of x] by simp
next
  case False
  then have "0 \<le> round_finite (- x)"
    by (intro round_finite_nonneg) simp
  then show ?thesis
    using False by (simp add: round_finite_minus)
qed

lemma round64_at:
  assumes "2 powi e \<le> \<bar>x\<bar>" "\<bar>x\<bar> < 2 powi (e + 1)" "- 1022 \<le> e" "e \<le> 1022"
  shows "round64 x = Fin (of_int (round_even (x / 2 powi (e - 52))) * 2 powi (e - 52))"
proof -
  have "round_finite \<bar>x\<bar> \<le> round_finite (of_int 1 * 2 powi (e + 1))"
    using assms(2) by (intro round_finite_mono) simp
  also have "\<dots> = of_int 1 * 2 powi (e + 1)"
    using assms(3) by (intro round_finite_fix) simp_all
  also have "\<dots> = 2 powi (e + 1)"
    by simp
  also have "\<dots> \<le> 2 powi 1023"
    using assms(4) by (intro power_int_increasing) simp_all
  also have "\<dots> < 2 powi 1024"
    by (intro power_int_strict_increasing) simp_all
  finally have "\<bar>round_finite x\<bar> < 2 ^ 1024"
    unfolding round_finite_abs by (simp only: power_int_numeral)
  then show ?thesis
    by (simp only: round64_finite_iff round_finite_at[OF assms(1-3)])
qed

text \<open>A binary64 number is a multiple of the least positive binary64 number.\<close>

lemma float64_multiple:
  assumes "float64 x"
  shows "\<exists>n. x = of_int n * 2 powi (- 1074)"
proof -
  have x: "x = round_finite x"
    using assms by (simp add: float64_def round64_finite_iff)
  define d where "d = exponent x - 52 + 1074"
  have d: "0 \<le> d"
    by (simp add: d_def exponent_def)
  have "ulp x = 2 powi (d + (- 1074))"
    by (simp add: ulp_def d_def)
  also have "\<dots> = 2 powi d * 2 powi (- 1074)"
    by (rule powi2_mult[symmetric])
  also have "(2::real) powi d = real_of_int (2 ^ nat d)"
    using d by (simp add: power_int_def)
  finally have "round_finite x = of_int (round_even (x / ulp x) * 2 ^ nat d) * 2 powi (- 1074)"
    by (simp add: round_finite_def)
  then show ?thesis
    using x by metis
qed

text \<open>The difference of two different binary64 numbers does not round to zero.\<close>

lemma round_finite_least: "round_finite (2 powi (- 1074)) = 2 powi (- 1074)"
  using round_finite_fix[of 1 "- 1074"] by simp

lemma float64_sub_pos:
  assumes "float64 x" "float64 y" "x < y"
  shows "round64 (y - x) = PInf \<or> (\<exists>r. round64 (y - x) = Fin r \<and> 0 < r)"
proof -
  obtain n m where n: "x = of_int n * 2 powi (- 1074)" and m: "y = of_int m * 2 powi (- 1074)"
    using float64_multiple[OF assms(1)] float64_multiple[OF assms(2)] by blast
  have p: "(0::real) < 2 powi (- 1074)"
    by (simp add: zero_less_power_int)
  have "real_of_int n < real_of_int m"
    using assms(3) p unfolding n m by (simp only: mult_less_cancel_right_pos)
  then have "1 \<le> m - n"
    by simp
  then have "(1::real) \<le> of_int (m - n)"
    by (simp only: of_int_1_le_iff)
  then have "1 * 2 powi (- 1074) \<le> of_int (m - n) * (2::real) powi (- 1074)"
    using p by (intro mult_right_mono) simp_all
  also have "\<dots> = y - x"
    unfolding n m by (simp add: left_diff_distrib)
  finally have "2 powi (- 1074) \<le> y - x"
    by simp
  then have "round_finite (2 powi (- 1074)) \<le> round_finite (y - x)"
    by (rule round_finite_mono)
  then have "0 < round_finite (y - x)"
    unfolding round_finite_least using p by linarith
  then show ?thesis
    using round64_cases[of "y - x"] by auto
qed

section \<open>Properties of the sequence data preparation\<close>

lemma slice_bound_inside: "0 \<le> k \<Longrightarrow> k \<le> int n \<Longrightarrow> slice_bound n k = nat k"
  by (simp add: slice_bound_def)

lemma py_slice_inside:
  "0 \<le> lo \<Longrightarrow> lo \<le> hi \<Longrightarrow> hi \<le> int (length xs) \<Longrightarrow>
     py_slice xs lo hi = take (nat hi - nat lo) (drop (nat lo) xs)"
  by (simp add: py_slice_def slice_bound_inside Let_def)

lemma wf_matrix_row: "wf_matrix m \<Longrightarrow> r \<in> set (rows m) \<Longrightarrow> length r = ncols m"
  by (simp add: wf_matrix_def list_all_iff)

text \<open>The slice \<open>a\<close> taken by the loop body has \<open>seq_len + pre_len\<close> columns.\<close>

lemma body_slice_row:
  assumes "length r = T" "1 \<le> s" "1 \<le> p" "int i + s + p \<le> int T"
  shows "py_slice r (int i) (int i + s + p) = take (nat (s + p)) (drop i r)"
  using assms by (simp add: py_slice_inside nat_add_distrib nat_diff_distrib)

lemma body_slice_ncols:
  assumes "1 \<le> s" "1 \<le> p" "int i + s + p \<le> int (ncols data)"
  shows "ncols (slice_cols data (int i) (int i + s + p)) = nat (s + p)"
  using assms by (simp add: slice_cols_def slice_bound_def)

lemma body_window:
  assumes "wf_matrix data" "1 \<le> s" "1 \<le> p" "int i + s + p \<le> int (ncols data)"
  shows "slice_cols (slice_cols data (int i) (int i + s + p)) 0 s = spec_window data i (nat s)"
proof -
  have "py_slice (py_slice r (int i) (int i + s + p)) 0 s = take (nat s) (drop i r)"
    if "r \<in> set (rows data)" for r
  proof -
    have len: "length r = ncols data"
      using that assms(1) by (rule wf_matrix_row[rotated])
    have l: "length (take (nat (s + p)) (drop i r)) = nat (s + p)"
      using assms len by simp
    show ?thesis
      unfolding body_slice_row[OF len assms(2-4)]
      using assms l by (simp add: py_slice_inside min_def)
  qed
  then show ?thesis
    using assms body_slice_ncols[OF assms(2-4)]
    by (simp add: spec_window_def slice_cols_def slice_bound_def)
qed

lemma body_target:
  assumes "wf_matrix data" "1 \<le> s" "1 \<le> p" "int i + s + p \<le> int (ncols data)"
  shows "last_col (slice_cols data (int i) (int i + s + p)) =
           Inr (spec_target data i (nat s) (nat p))"
proof -
  have "last (py_slice r (int i) (int i + s + p)) = r ! (i + nat s + nat p - 1)"
    if "r \<in> set (rows data)" for r
  proof -
    have len: "length r = ncols data"
      using that assms(1) by (rule wf_matrix_row[rotated])
    let ?a = "take (nat (s + p)) (drop i r)"
    have l: "length ?a = nat (s + p)"
      using assms len by simp
    then have ne: "?a \<noteq> []"
      using assms by auto
    have "last ?a = ?a ! (nat (s + p) - 1)"
      using last_conv_nth[OF ne] l by simp
    also have "\<dots> = r ! (i + (nat (s + p) - 1))"
      using assms len by simp
    also have "i + (nat (s + p) - 1) = i + nat s + nat p - 1"
      using assms by (simp add: nat_add_distrib)
    finally show ?thesis
      unfolding body_slice_row[OF len assms(2-4)] .
  qed
  then show ?thesis
    using assms body_slice_ncols[OF assms(2-4)]
    by (simp add: spec_target_def last_col_def slice_cols_def)
qed

lemma prepare_loop_windows:
  assumes "wf_matrix data" "1 \<le> s" "1 \<le> p"
    and "\<forall>i\<in>set is. int i + s + p \<le> int (ncols data)"
  shows "prepare_loop s p data is (X, Y) =
           Inr (X @ map (\<lambda>i. spec_window data i (nat s)) is,
                Y @ map (\<lambda>i. spec_target data i (nat s) (nat p)) is)"
  using assms(4)
proof (induction "is" arbitrary: X Y)
  case Nil
  then show ?case by simp
next
  case (Cons i "is")
  have b: "int i + s + p \<le> int (ncols data)"
    using Cons.prems by simp
  show ?case
    using Cons.IH[of "X @ [spec_window data i (nat s)]"
                     "Y @ [spec_target data i (nat s) (nat p)]"] Cons.prems
    by (simp add: body_window[OF assms(1-3) b] body_target[OF assms(1-3) b])
qed

lemma py_range_bound:
  "\<forall>i\<in>set (py_range (int T - (s + p - 1))). int i + s + p \<le> int T"
  by (auto simp: py_range_def)

lemma py_range_full:
  "1 \<le> s \<Longrightarrow> 1 \<le> p \<Longrightarrow> s + p \<le> int T \<Longrightarrow>
     py_range (int T - (s + p - 1)) = [0 ..< T - (nat s + nat p - 1)]"
  unfolding py_range_def
  by (rule arg_cong[where f="\<lambda>n. [0..<n]"]) linarith

lemma py_range_empty: "int T < s + p \<Longrightarrow> py_range (int T - (s + p - 1)) = []"
  by (simp add: py_range_def)

lemma items_np_array: "items (np_array shp xs) = xs"
  by (cases xs) simp_all

lemma shape_np_array_map:
  assumes "0 < n"
  shows "shape (np_array shp (map f [0..<n])) = n # shp (f 0)"
proof -
  have "[0..<n] = 0 # [Suc 0..<n]"
    using assms by (rule upt_conv_Cons)
  then show ?thesis
    using assms by simp
qed

text \<open>
  What the function returns for positive window parameters: no error, and for each partition
  the examples of the start indices in the loop's range, in order.
\<close>

lemma sequence_data_preparation_result:
  assumes "wf_matrix train_data" "wf_matrix test_data" "1 \<le> seq_len" "1 \<le> pre_len"
  shows "sequence_data_preparation seq_len pre_len train_data test_data =
     Inr (np_array matrix_shape (map (\<lambda>i. spec_window train_data i (nat seq_len))
              (py_range (int (ncols train_data) - (seq_len + pre_len - 1)))),
          np_array vector_shape (map (\<lambda>i. spec_target train_data i (nat seq_len) (nat pre_len))
              (py_range (int (ncols train_data) - (seq_len + pre_len - 1)))),
          np_array matrix_shape (map (\<lambda>i. spec_window test_data i (nat seq_len))
              (py_range (int (ncols test_data) - (seq_len + pre_len - 1)))),
          np_array vector_shape (map (\<lambda>i. spec_target test_data i (nat seq_len) (nat pre_len))
              (py_range (int (ncols test_data) - (seq_len + pre_len - 1)))))"
  unfolding sequence_data_preparation_def
  by (simp add: prepare_loop_windows[OF assms(1,3,4) py_range_bound]
        prepare_loop_windows[OF assms(2,3,4) py_range_bound])

lemma windowed_np_array:
  assumes "1 \<le> s" "1 \<le> p" "s + p \<le> int (ncols m)"
  shows "windowed s p m
      (np_array matrix_shape (map (\<lambda>i. spec_window m i (nat s))
          (py_range (int (ncols m) - (s + p - 1)))))
      (np_array vector_shape (map (\<lambda>i. spec_target m i (nat s) (nat p))
          (py_range (int (ncols m) - (s + p - 1)))))"
proof -
  define n where "n = ncols m - (nat s + nat p - 1)"
  have pos: "0 < n"
    unfolding n_def using assms by linarith
  have sx: "shape (np_array matrix_shape (map (\<lambda>i. spec_window m i (nat s)) [0..<n])) =
              [n, length (rows m), nat s]"
    by (simp add: shape_np_array_map[OF pos] matrix_shape_def spec_window_def)
  have sy: "shape (np_array vector_shape (map (\<lambda>i. spec_target m i (nat s) (nat p)) [0..<n])) =
              [n, length (rows m)]"
    by (simp add: shape_np_array_map[OF pos] vector_shape_def spec_target_def)
  show ?thesis
    unfolding py_range_full[OF assms] windowed_def Let_def n_def[symmetric]
    by (simp add: items_np_array sx sy)
qed

text \<open>
  Claim C1.  For positive \<open>seq_len\<close> and \<open>pre_len\<close> the function returns without an error, and
  for each of the two matrices with \<open>T \<ge> seq_len + pre_len\<close> columns it returns exactly
  \<open>T - (seq_len + pre_len - 1)\<close> examples, in increasing order of the start index \<open>i\<close>; the
  input window of example \<open>i\<close> is columns \<open>[i, i + seq_len)\<close> of all rows and its target is
  column \<open>i + seq_len + pre_len - 1\<close> of all rows.
\<close>

theorem windowing_examples:
  assumes "wf_matrix train_data" "wf_matrix test_data" "1 \<le> seq_len" "1 \<le> pre_len"
  shows "case sequence_data_preparation seq_len pre_len train_data test_data of
           Inl e \<Rightarrow> False
         | Inr (trainX, trainY, testX, testY) \<Rightarrow>
             (seq_len + pre_len \<le> int (ncols train_data)
                \<longrightarrow> windowed seq_len pre_len train_data trainX trainY) \<and>
             (seq_len + pre_len \<le> int (ncols test_data)
                \<longrightarrow> windowed seq_len pre_len test_data testX testY)"
  by (simp add: sequence_data_preparation_result[OF assms] windowed_np_array[OF assms(3,4)])

theorem windowing_examples_witness:
  "wf_matrix \<lparr>ncols = 6, rows = [[1, 2, 3, 4, 5, 6 :: int], [7, 8, 9, 10, 11, 12]]\<rparr> \<and>
   wf_matrix \<lparr>ncols = 5, rows = [[13, 14, 15, 16, 17 :: int], [18, 19, 20, 21, 22]]\<rparr> \<and>
   (1::int) \<le> 3 \<and> (1::int) \<le> 2 \<and> (3::int) + 2 \<le> int 6 \<and> (3::int) + 2 \<le> int 5 \<and>
   (case sequence_data_preparation 3 2
           \<lparr>ncols = 6, rows = [[1, 2, 3, 4, 5, 6 :: int], [7, 8, 9, 10, 11, 12]]\<rparr>
           \<lparr>ncols = 5, rows = [[13, 14, 15, 16, 17 :: int], [18, 19, 20, 21, 22]]\<rparr> of
      Inl e \<Rightarrow> False
    | Inr (trainX, trainY, testX, testY) \<Rightarrow>
        windowed 3 2 \<lparr>ncols = 6, rows = [[1, 2, 3, 4, 5, 6 :: int], [7, 8, 9, 10, 11, 12]]\<rparr>
          trainX trainY \<and>
        windowed 3 2 \<lparr>ncols = 5, rows = [[13, 14, 15, 16, 17 :: int], [18, 19, 20, 21, 22]]\<rparr>
          testX testY)"
proof -
  let ?tr = "\<lparr>ncols = 6, rows = [[1, 2, 3, 4, 5, 6 :: int], [7, 8, 9, 10, 11, 12]]\<rparr>"
  let ?te = "\<lparr>ncols = 5, rows = [[13, 14, 15, 16, 17 :: int], [18, 19, 20, 21, 22]]\<rparr>"
  have w1: "wf_matrix ?tr" and w2: "wf_matrix ?te"
    by (simp_all add: wf_matrix_def)
  have s: "(1::int) \<le> 3" and p: "(1::int) \<le> 2"
    by simp_all
  show ?thesis
    using windowing_examples[OF w1 w2 s p] w1 w2
    by (auto split: sum.splits)
qed

text \<open>
  The specification's small scenario run on the code: 9 training columns and 6 test columns
  with \<open>seq_len = 3\<close>, \<open>pre_len = 2\<close> give 5 and 2 examples.
\<close>

lemma windowing_small_scenario:
  "sequence_data_preparation 3 2
     \<lparr>ncols = 9, rows = [[0, 1, 2, 3, 4, 5, 6, 7, 8 :: int]]\<rparr>
     \<lparr>ncols = 6, rows = [[9, 10, 11, 12, 13, 14 :: int]]\<rparr> =
   Inr (\<lparr>shape = [5, 1, 3],
          items = [\<lparr>ncols = 3, rows = [[0, 1, 2]]\<rparr>, \<lparr>ncols = 3, rows = [[1, 2, 3]]\<rparr>,
                   \<lparr>ncols = 3, rows = [[2, 3, 4]]\<rparr>, \<lparr>ncols = 3, rows = [[3, 4, 5]]\<rparr>,
                   \<lparr>ncols = 3, rows = [[4, 5, 6]]\<rparr>]\<rparr>,
        \<lparr>shape = [5, 1], items = [[4], [5], [6], [7], [8]]\<rparr>,
        \<lparr>shape = [2, 1, 3],
          items = [\<lparr>ncols = 3, rows = [[9, 10, 11]]\<rparr>, \<lparr>ncols = 3, rows = [[10, 11, 12]]\<rparr>]\<rparr>,
        \<lparr>shape = [2, 1], items = [[13], [14]]\<rparr>)"
  by code_simp

text \<open>
  Claim C4, as the code has it.  For positive \<open>seq_len\<close> and \<open>pre_len\<close> the function returns
  without an error; for each of the two matrices with fewer than \<open>seq_len + pre_len\<close> columns
  it returns zero examples, as two empty arrays of shape \<open>(0,)\<close>.  Nothing else is returned:
  there is no error and no flag.
\<close>

theorem windowing_too_short:
  assumes "wf_matrix train_data" "wf_matrix test_data" "1 \<le> seq_len" "1 \<le> pre_len"
  shows "case sequence_data_preparation seq_len pre_len train_data test_data of
           Inl e \<Rightarrow> False
         | Inr (trainX, trainY, testX, testY) \<Rightarrow>
             (int (ncols train_data) < seq_len + pre_len
                \<longrightarrow> trainX = empty_array \<and> trainY = empty_array) \<and>
             (int (ncols test_data) < seq_len + pre_len
                \<longrightarrow> testX = empty_array \<and> testY = empty_array)"
  by (simp add: sequence_data_preparation_result[OF assms] py_range_empty empty_array_def)

theorem windowing_too_short_witness:
  "wf_matrix \<lparr>ncols = 4, rows = [[1, 2, 3, 4 :: int], [5, 6, 7, 8]]\<rparr> \<and>
   wf_matrix \<lparr>ncols = 3, rows = [[9, 10, 11 :: int], [12, 13, 14]]\<rparr> \<and>
   (1::int) \<le> 3 \<and> (1::int) \<le> 2 \<and> int 4 < (3::int) + 2 \<and> int 3 < (3::int) + 2 \<and>
   sequence_data_preparation 3 2
       \<lparr>ncols = 4, rows = [[1, 2, 3, 4 :: int], [5, 6, 7, 8]]\<rparr>
       \<lparr>ncols = 3, rows = [[9, 10, 11 :: int], [12, 13, 14]]\<rparr> =
     Inr (empty_array, empty_array, empty_array, empty_array)"
proof -
  let ?tr = "\<lparr>ncols = 4, rows = [[1, 2, 3, 4 :: int], [5, 6, 7, 8]]\<rparr>"
  let ?te = "\<lparr>ncols = 3, rows = [[9, 10, 11 :: int], [12, 13, 14]]\<rparr>"
  have w1: "wf_matrix ?tr" and w2: "wf_matrix ?te"
    by (simp_all add: wf_matrix_def)
  have s: "(1::int) \<le> 3" and p: "(1::int) \<le> 2"
    by simp_all
  show ?thesis
    using windowing_too_short[OF w1 w2 s p] w1 w2
    by (auto split: sum.splits)
qed

text \<open>
  Claim C4 as stated fails: on one sensor with 4 timesteps and \<open>seq_len = 3\<close>,
  \<open>pre_len = 2\<close> the function returns normally, and what it returns is four empty arrays.
\<close>

theorem windowing_too_short_counterexample:
  "\<not> isl (sequence_data_preparation 3 2
            \<lparr>ncols = 4, rows = [[1, 2, 3, 4 :: int]]\<rparr> \<lparr>ncols = 4, rows = [[5, 6, 7, 8 :: int]]\<rparr>) \<and>
   sequence_data_preparation 3 2
       \<lparr>ncols = 4, rows = [[1, 2, 3, 4 :: int]]\<rparr> \<lparr>ncols = 4, rows = [[5, 6, 7, 8 :: int]]\<rparr> =
     Inr (\<lparr>shape = [0], items = []\<rparr>, \<lparr>shape = [0], items = []\<rparr>,
          \<lparr>shape = [0], items = []\<rparr>, \<lparr>shape = [0], items = []\<rparr>)"
  by (simp add: sequence_data_preparation_def py_range_def)

section \<open>Properties of the scaler\<close>

lemma elements_map_matrix: "elements (map_matrix f m) = map f (elements m)"
  by (simp add: elements_def map_matrix_def map_concat)

lemma fold_fmax_Fin: "fold fmax (map Fin xs) (Fin x) = Fin (fold max xs x)"
  by (induction xs arbitrary: x) simp_all

lemma fold_fmin_Fin: "fold fmin (map Fin xs) (Fin x) = Fin (fold min xs x)"
  by (induction xs arbitrary: x) simp_all

lemma fold_max_greatest:
  fixes mx :: real
  assumes "mx \<in> set (x # xs)" "\<forall>y\<in>set (x # xs). y \<le> mx"
  shows "fold max xs x = mx"
proof -
  have "Max (set (x # xs)) = mx"
    using assms by (intro Max_eqI) auto
  then show ?thesis
    by (simp only: Max.set_eq_fold)
qed

lemma fold_min_least:
  fixes mn :: real
  assumes "mn \<in> set (x # xs)" "\<forall>y\<in>set (x # xs). mn \<le> y"
  shows "fold min xs x = mn"
proof -
  have "Min (set (x # xs)) = mn"
    using assms by (intro Min_eqI) auto
  then show ?thesis
    by (simp only: Min.set_eq_fold)
qed

text \<open>On finite entries \<open>max()\<close> and \<open>min()\<close> return the greatest and the least entry.\<close>

lemma np_max_Fin:
  assumes "mx \<in> set (elements m)" "\<forall>x\<in>set (elements m). x \<le> mx"
  shows "np_max (map_matrix Fin m) = Inr (Fin mx)"
proof (cases "elements m")
  case Nil
  then show ?thesis using assms(1) by simp
next
  case (Cons x xs)
  then show ?thesis
    using fold_max_greatest[of mx x xs] assms
    by (simp add: np_max_def elements_map_matrix fold_fmax_Fin)
qed

lemma np_min_Fin:
  assumes "mn \<in> set (elements m)" "\<forall>x\<in>set (elements m). mn \<le> x"
  shows "np_min (map_matrix Fin m) = Inr (Fin mn)"
proof (cases "elements m")
  case Nil
  then show ?thesis using assms(1) by simp
next
  case (Cons x xs)
  then show ?thesis
    using fold_min_least[of mn x xs] assms
    by (simp add: np_min_def elements_map_matrix fold_fmin_Fin)
qed

lemma map_matrix_comp: "map_matrix f (map_matrix g m) = map_matrix (\<lambda>x. f (g x)) m"
  by (simp add: map_matrix_def comp_def)

lemma scale_data_Fin:
  assumes "mn \<in> set (elements train)" "mx \<in> set (elements train)"
    and "\<forall>x\<in>set (elements train). mn \<le> x \<and> x \<le> mx"
  shows "scale_data (map_matrix Fin train) (map_matrix Fin test) =
           Inr (map_matrix (\<lambda>x. scale_value (Fin mn) (Fin mx) (Fin x)) train,
                map_matrix (\<lambda>x. scale_value (Fin mn) (Fin mx) (Fin x)) test)"
proof -
  have mx: "np_max (map_matrix Fin train) = Inr (Fin mx)"
    using assms by (intro np_max_Fin) auto
  have mn: "np_min (map_matrix Fin train) = Inr (Fin mn)"
    using assms by (intro np_min_Fin) auto
  show ?thesis
    by (simp add: scale_data_def mx mn map_matrix_comp)
qed

lemma fsub_Fin: "fsub (Fin x) (Fin y) = round64 (x - y)"
  by (simp add: fsub_def)

lemma round64_minus: "round64 (- x) = fneg (round64 x)"
  by (auto simp: round64_def Let_def round_finite_minus round_finite_0)

text \<open>
  Where the float difference \<open>max - min\<close> is a positive finite number \<open>d\<close>, the scaled value
  is in \<open>[0, 1]\<close> for an entry between the minimum and the maximum, at least 1 for an entry
  above, and at most 0 for an entry below.
\<close>

lemma scale_value_inside:
  assumes "fsub (Fin mx) (Fin mn) = Fin d" "0 < d" "mn \<le> x" "x \<le> mx"
  shows "in_unit_interval (scale_value (Fin mn) (Fin mx) (Fin x))"
proof -
  have d: "round64 (mx - mn) = Fin d"
    using assms(1) by (simp add: fsub_Fin)
  have "0 \<le> x - mn" "x - mn \<le> mx - mn"
    using assms(3,4) by simp_all
  then obtain a where a: "round64 (x - mn) = Fin a" "0 \<le> a" "a \<le> d"
    using round64_between[OF _ _ round64_0 d] by blast
  have "0 \<le> a / d" "a / d \<le> 1"
    using a(2,3) assms(2) by simp_all
  then obtain r where r: "round64 (a / d) = Fin r" "0 \<le> r" "r \<le> 1"
    using round64_between[OF _ _ round64_0 round64_1] by blast
  show ?thesis
    using assms(2) by (simp add: scale_value_def fsub_Fin d a(1) r)
qed

lemma scale_value_above:
  assumes "fsub (Fin mx) (Fin mn) = Fin d" "0 < d" "mx \<le> x"
  shows "fle (Fin 1) (scale_value (Fin mn) (Fin mx) (Fin x))"
proof -
  have d: "round64 (mx - mn) = Fin d"
    using assms(1) by (simp add: fsub_Fin)
  have "fle (Fin d) (round64 (x - mn))"
    using round64_mono[of "mx - mn" "x - mn"] assms(3) by (simp add: d)
  then consider "round64 (x - mn) = PInf" | a where "round64 (x - mn) = Fin a" "d \<le> a"
    by (cases "round64 (x - mn)") simp_all
  then show ?thesis
  proof cases
    case 1
    then show ?thesis
      using assms(2) by (simp add: scale_value_def fsub_Fin d)
  next
    case 2
    have "1 \<le> a / d"
      using 2(2) assms(2) by simp
    then have "fle (round64 1) (round64 (a / d))"
      by (rule round64_mono)
    then show ?thesis
      using assms(2) by (simp add: scale_value_def fsub_Fin d 2(1))
  qed
qed

lemma scale_value_below:
  assumes "fsub (Fin mx) (Fin mn) = Fin d" "0 < d" "x \<le> mn"
  shows "fle (scale_value (Fin mn) (Fin mx) (Fin x)) (Fin 0)"
proof -
  have d: "round64 (mx - mn) = Fin d"
    using assms(1) by (simp add: fsub_Fin)
  have "fle (round64 (x - mn)) (round64 0)"
    using assms(3) by (intro round64_mono) simp
  then consider "round64 (x - mn) = NInf" | a where "round64 (x - mn) = Fin a" "a \<le> 0"
    by (cases "round64 (x - mn)") (simp_all add: round64_0)
  then show ?thesis
  proof cases
    case 1
    then show ?thesis
      using assms(2) by (simp add: scale_value_def fsub_Fin d)
  next
    case 2
    have "a / d \<le> 0"
      using 2(2) assms(2) by (simp add: divide_le_0_iff)
    then have "fle (round64 (a / d)) (round64 0)"
      by (rule round64_mono)
    then show ?thesis
      using assms(2) by (simp add: scale_value_def fsub_Fin d 2(1) round64_0)
  qed
qed

text \<open>
  Claim C5, as the code has it.  \<open>scale_data\<close> takes the least entry \<open>mn\<close> and the greatest
  entry \<open>mx\<close> of the training partition and applies the same map, the float value of
  \<open>(x - mn) / (mx - mn)\<close>, to every entry of both partitions.  Where the float difference
  \<open>mx - mn\<close> is positive and finite, every training entry is mapped into \<open>[0, 1]\<close>, and so
  is every test entry between \<open>mn\<close> and \<open>mx\<close>; a test entry above \<open>mx\<close> is mapped to 1 or
  more and a test entry below \<open>mn\<close> to 0 or less.
\<close>

theorem scale_data_train_bounds:
  assumes "mn \<in> set (elements train)" "mx \<in> set (elements train)"
    and "\<forall>x\<in>set (elements train). mn \<le> x \<and> x \<le> mx"
    and "fsub (Fin mx) (Fin mn) = Fin d" "0 < d"
  shows "scale_data (map_matrix Fin train) (map_matrix Fin test) =
           Inr (map_matrix (\<lambda>x. scale_value (Fin mn) (Fin mx) (Fin x)) train,
                map_matrix (\<lambda>x. scale_value (Fin mn) (Fin mx) (Fin x)) test) \<and>
         (\<forall>x\<in>set (elements train). in_unit_interval (scale_value (Fin mn) (Fin mx) (Fin x))) \<and>
         (\<forall>y\<in>set (elements test).
            (mn \<le> y \<and> y \<le> mx \<longrightarrow> in_unit_interval (scale_value (Fin mn) (Fin mx) (Fin y))) \<and>
            (mx \<le> y \<longrightarrow> fle (Fin 1) (scale_value (Fin mn) (Fin mx) (Fin y))) \<and>
            (y \<le> mn \<longrightarrow> fle (scale_value (Fin mn) (Fin mx) (Fin y)) (Fin 0)))"
  using scale_data_Fin[OF assms(1-3)] assms(3)
    scale_value_inside[OF assms(4,5)] scale_value_above[OF assms(4,5)]
    scale_value_below[OF assms(4,5)]
  by blast

theorem scale_data_train_bounds_witness:
  "(1::real) \<in> set (elements \<lparr>ncols = 3, rows = [[1, 3, 5 :: real]]\<rparr>) \<and>
   (5::real) \<in> set (elements \<lparr>ncols = 3, rows = [[1, 3, 5 :: real]]\<rparr>) \<and>
   fsub (Fin 5) (Fin 1) = Fin 4 \<and> (0::real) < 4 \<and>
   scale_data (map_matrix Fin \<lparr>ncols = 3, rows = [[1, 3, 5]]\<rparr>)
              (map_matrix Fin \<lparr>ncols = 2, rows = [[2, 6]]\<rparr>) =
     Inr (\<lparr>ncols = 3, rows = [[Fin 0, Fin (1 / 2), Fin 1]]\<rparr>,
          \<lparr>ncols = 2, rows = [[Fin (1 / 4), Fin (5 / 4)]]\<rparr>) \<and>
   in_unit_interval (scale_value (Fin 1) (Fin 5) (Fin 3)) \<and>
   fle (Fin 1) (scale_value (Fin 1) (Fin 5) (Fin 6))"
proof -
  let ?tr = "\<lparr>ncols = 3, rows = [[1, 3, 5 :: real]]\<rparr>"
  let ?te = "\<lparr>ncols = 2, rows = [[2, 6 :: real]]\<rparr>"
  have a: "(1::real) \<in> set (elements ?tr)" and b: "(5::real) \<in> set (elements ?tr)"
    by (simp_all add: elements_def)
  have c: "\<forall>x\<in>set (elements ?tr). 1 \<le> x \<and> x \<le> 5"
    by (simp add: elements_def)
  have d: "fsub (Fin 5) (Fin 1) = Fin 4" and e: "(0::real) < 4"
    by (simp_all add: fsub_Fin)
  note t = scale_data_train_bounds[OF a b c d e, of ?te]
  have v: "scale_value (Fin 1) (Fin 5) (Fin x) = round64 ((x - 1) / 4)"
    if "round64 (x - 1) = Fin (x - 1)" for x
    using that by (simp add: scale_value_def fsub_Fin)
  have r: "scale_data (map_matrix Fin ?tr) (map_matrix Fin ?te) =
     Inr (\<lparr>ncols = 3, rows = [[Fin 0, Fin (1 / 2), Fin 1]]\<rparr>,
          \<lparr>ncols = 2, rows = [[Fin (1 / 4), Fin (5 / 4)]]\<rparr>)"
    using t by (simp add: map_matrix_def v round64_0)
  have i: "in_unit_interval (scale_value (Fin 1) (Fin 5) (Fin 3))"
    using t by (simp add: elements_def)
  have j: "fle (Fin 1) (scale_value (Fin 1) (Fin 5) (Fin 6))"
    using t by (simp add: elements_def)
  show ?thesis
    using a b d e r i j by blast
qed

text \<open>
  Claim C5 as stated fails.  With training values 1 and 5 the test value 6 is mapped to
  \<open>5 / 4\<close>, outside \<open>[0, 1]\<close>.  With training values \<open>-2 ^ 1023\<close> and \<open>2 ^ 1023\<close> the
  difference of maximum and minimum overflows, and the greater training value is mapped
  to \<open>nan\<close>.
\<close>

theorem scale_data_unit_interval_counterexample:
  "scale_data \<lparr>ncols = 2, rows = [[Fin 1, Fin 5]]\<rparr> \<lparr>ncols = 1, rows = [[Fin 6]]\<rparr> =
     Inr (\<lparr>ncols = 2, rows = [[Fin 0, Fin 1]]\<rparr>, \<lparr>ncols = 1, rows = [[Fin (5 / 4)]]\<rparr>) \<and>
   \<not> in_unit_interval (Fin (5 / 4)) \<and>
   float64 (2 ^ 1023) \<and> float64 (- (2 ^ 1023)) \<and>
   scale_data \<lparr>ncols = 2, rows = [[Fin (- (2 ^ 1023)), Fin (2 ^ 1023)]]\<rparr>
              \<lparr>ncols = 1, rows = [[Fin 0]]\<rparr> =
     Inr (\<lparr>ncols = 2, rows = [[Fin 0, NaN]]\<rparr>, \<lparr>ncols = 1, rows = [[Fin 0]]\<rparr>)"
proof -
  have p: "round64 (2 ^ 1023) = Fin (2 ^ 1023)"
    using round64_fix[of "2 ^ 52" 971] by simp
  have n: "round64 (- (2 ^ 1023)) = Fin (- (2 ^ 1023))"
    by (simp only: round64_minus p fneg.simps)
  have "round_finite (2 ^ 1024) = 2 ^ 1024"
    using round_finite_fix[of 1 1024] by simp
  then have o: "round64 (2 ^ 1024) = PInf"
    by (simp add: round64_def)
  have s: "(2::real) ^ 1023 + 2 ^ 1023 = 2 ^ 1024"
    by simp
  have mx: "np_max \<lparr>ncols = 2, rows = [[Fin (- (2 ^ 1023)), Fin (2 ^ 1023)]]\<rparr> = Inr (Fin (2 ^ 1023))"
    by (simp add: np_max_def elements_def)
  have mn: "np_min \<lparr>ncols = 2, rows = [[Fin (- (2 ^ 1023)), Fin (2 ^ 1023)]]\<rparr> = Inr (Fin (- (2 ^ 1023)))"
    by (simp add: np_min_def elements_def)
  have big: "scale_data \<lparr>ncols = 2, rows = [[Fin (- (2 ^ 1023)), Fin (2 ^ 1023)]]\<rparr>
              \<lparr>ncols = 1, rows = [[Fin 0]]\<rparr> =
     Inr (\<lparr>ncols = 2, rows = [[Fin 0, NaN]]\<rparr>, \<lparr>ncols = 1, rows = [[Fin 0]]\<rparr>)"
    unfolding scale_data_def mx mn
    by (simp add: map_matrix_def scale_value_def fsub_def s o p round64_0 del: power_numeral)
  have small: "scale_data \<lparr>ncols = 2, rows = [[Fin 1, Fin 5]]\<rparr> \<lparr>ncols = 1, rows = [[Fin 6]]\<rparr> =
     Inr (\<lparr>ncols = 2, rows = [[Fin 0, Fin 1]]\<rparr>, \<lparr>ncols = 1, rows = [[Fin (5 / 4)]]\<rparr>)"
    by (simp add: scale_data_def np_max_def np_min_def elements_def map_matrix_def
          scale_value_def fsub_def round64_0)
  show ?thesis
    using small big p n by (simp add: float64_def)
qed

lemma scale_value_equal: "scale_value (Fin c) (Fin c) (Fin c) = NaN"
  by (simp add: scale_value_def fsub_Fin round64_0 inf_of_sign_def)

lemma scale_value_constant_above:
  assumes "float64 c" "float64 y" "c < y"
  shows "scale_value (Fin c) (Fin c) (Fin y) = PInf"
  using float64_sub_pos[OF assms]
  by (auto simp: scale_value_def fsub_Fin round64_0 inf_of_sign_def)

lemma scale_value_constant_below:
  assumes "float64 c" "float64 y" "y < c"
  shows "scale_value (Fin c) (Fin c) (Fin y) = NInf"
proof -
  have "round64 (y - c) = fneg (round64 (c - y))"
    using round64_minus[of "c - y"] by simp
  then show ?thesis
    using float64_sub_pos[OF assms(2,1,3)]
    by (auto simp: scale_value_def fsub_Fin round64_0 inf_of_sign_def)
qed

text \<open>
  Claim C3, as the code has it.  When every entry of a non-empty training partition is the
  same float \<open>c\<close>, \<open>scale_data\<close> raises nothing and returns: every scaled training entry
  is \<open>nan\<close>, and a test entry \<open>y\<close> is scaled to \<open>nan\<close>, \<open>+inf\<close> or \<open>-inf\<close> as \<open>y\<close> equals,
  exceeds or is below \<open>c\<close>.
\<close>

theorem scale_data_constant_train:
  assumes "elements train \<noteq> []" "\<forall>x\<in>set (elements train). x = c"
    and "float64 c" "\<forall>y\<in>set (elements test). float64 y"
  shows "scale_data (map_matrix Fin train) (map_matrix Fin test) =
           Inr (map_matrix (\<lambda>x. NaN) train,
                map_matrix (\<lambda>y. if c < y then PInf else if y < c then NInf else NaN) test)"
proof -
  have c: "c \<in> set (elements train)"
    using assms by (cases "elements train") auto
  have b: "\<forall>x\<in>set (elements train). c \<le> x \<and> x \<le> c"
    using assms(2) by simp
  have "scale_value (Fin c) (Fin c) (Fin x) = NaN" if "r \<in> set (rows train)" "x \<in> set r" for r x
  proof -
    have "x \<in> set (elements train)"
      using that by (auto simp: elements_def)
    then have "x = c"
      using assms(2) by blast
    then show ?thesis
      by (simp add: scale_value_equal)
  qed
  then have tr: "map_matrix (\<lambda>x. scale_value (Fin c) (Fin c) (Fin x)) train =
                   map_matrix (\<lambda>x. NaN) train"
    by (simp add: map_matrix_def)
  have "scale_value (Fin c) (Fin c) (Fin y) =
          (if c < y then PInf else if y < c then NInf else NaN)"
    if "r \<in> set (rows test)" "y \<in> set r" for r y
  proof -
    have "y \<in> set (elements test)"
      using that by (auto simp: elements_def)
    then have f: "float64 y"
      using assms(4) by blast
    consider "c < y" | "y < c" | "y = c"
      by linarith
    then show ?thesis
    proof cases
      case 1
      then show ?thesis
        by (simp add: scale_value_constant_above[OF assms(3) f])
    next
      case 2
      then show ?thesis
        by (simp add: scale_value_constant_below[OF assms(3) f])
    next
      case 3
      then show ?thesis
        by (simp add: scale_value_equal)
    qed
  qed
  then have te: "map_matrix (\<lambda>x. scale_value (Fin c) (Fin c) (Fin x)) test =
                   map_matrix (\<lambda>y. if c < y then PInf else if y < c then NInf else NaN) test"
    by (simp add: map_matrix_def)
  show ?thesis
    unfolding scale_data_Fin[OF c c b] tr te ..
qed

theorem scale_data_constant_train_witness:
  "elements \<lparr>ncols = 2, rows = [[4, 4 :: real]]\<rparr> \<noteq> [] \<and>
   float64 4 \<and> float64 9 \<and> float64 1 \<and>
   scale_data (map_matrix Fin \<lparr>ncols = 2, rows = [[4, 4]]\<rparr>)
              (map_matrix Fin \<lparr>ncols = 3, rows = [[4, 9, 1]]\<rparr>) =
     Inr (\<lparr>ncols = 2, rows = [[NaN, NaN]]\<rparr>, \<lparr>ncols = 3, rows = [[NaN, PInf, NInf]]\<rparr>)"
proof -
  let ?tr = "\<lparr>ncols = 2, rows = [[4, 4 :: real]]\<rparr>"
  let ?te = "\<lparr>ncols = 3, rows = [[4, 9, 1 :: real]]\<rparr>"
  have a: "elements ?tr \<noteq> []"
    by (simp add: elements_def)
  have b: "\<forall>x\<in>set (elements ?tr). x = 4"
    by (simp add: elements_def)
  have f: "float64 4" "float64 9" "float64 1"
    by (simp_all add: float64_def)
  have g: "\<forall>y\<in>set (elements ?te). float64 y"
    using f by (simp add: elements_def)
  show ?thesis
    using scale_data_constant_train[OF a b f(1) g] a f
    by (simp add: map_matrix_def)
qed

text \<open>
  Claim C3 as stated fails: on the constant training partition \<open>[[5, 5]]\<close> the function
  returns normally, and the arrays it returns hold \<open>nan\<close> and \<open>+inf\<close>.
\<close>

theorem scale_data_constant_counterexample:
  "\<not> isl (scale_data \<lparr>ncols = 2, rows = [[Fin 5, Fin 5]]\<rparr> \<lparr>ncols = 2, rows = [[Fin 5, Fin 7]]\<rparr>) \<and>
   scale_data \<lparr>ncols = 2, rows = [[Fin 5, Fin 5]]\<rparr> \<lparr>ncols = 2, rows = [[Fin 5, Fin 7]]\<rparr> =
     Inr (\<lparr>ncols = 2, rows = [[NaN, NaN]]\<rparr>, \<lparr>ncols = 2, rows = [[NaN, PInf]]\<rparr>)"
  by (simp add: scale_data_def np_max_def np_min_def elements_def map_matrix_def
        scale_value_def fsub_def inf_of_sign_def round64_0)

section \<open>The rounding error of scaling and rescaling\<close>








section \<open>Properties of the rescaling for reporting\<close>









section \<open>Properties of the naive prediction\<close>





section \<open>The reference values fed to the evaluation\<close>












section \<open>Properties of the performance measures\<close>

lemma mean_abs_error_sensor:
  assumes "shape a = [e, n]" "shape b = [e', n']" "length (items a) = length (items b)"
    and "j < n" "j < n'"
  shows "mean_abs_error a b j = Inr (sensor_mae a b j)"
  using assms
  by (simp add: mean_abs_error_def transposed_row_def np_sub_def sensor_mae_def sensor_series_def)

text \<open>
  The loop visits the indices it is given: for each index \<open>j\<close> below the number of sensors
  it appends the two mean absolute errors of sensor \<open>j\<close> and their ratio, or \<open>nan\<close> when the
  naive error is zero.
\<close>

lemma performance_loop_sensors:
  assumes "shape r = [e, n]" "shape p = [e, n]" "shape q = [e, n]"
    and "length (items r) = length (items p)" "length (items r) = length (items q)"
    and "\<forall>j\<in>set js. j < n"
  shows "performance_loop r p q js (mael, masel, nmael) =
           Inr (mael @ map (sensor_mae r p) js,
                masel @ map (\<lambda>j. scaled_error (sensor_mae r p j) (sensor_mae r q j)) js,
                nmael @ map (sensor_mae r q) js)"
  using assms(6)
proof (induction js arbitrary: mael masel nmael)
  case Nil
  then show ?case by simp
next
  case (Cons j js)
  have j: "j < n"
    using Cons.prems by simp
  have a: "mean_abs_error r p j = Inr (sensor_mae r p j)"
    by (rule mean_abs_error_sensor[OF assms(1,2,4) j j])
  have b: "mean_abs_error r q j = Inr (sensor_mae r q j)"
    by (rule mean_abs_error_sensor[OF assms(1,3,5) j j])
  show ?case
    using Cons.IH Cons.prems by (simp add: a b scaled_error_def)
qed

text \<open>
  The range of the loop is \<open>testX.shape[-1]\<close>, the window length.  With windows of length
  \<open>s\<close> over at least \<open>s\<close> sensors the cell reports on the sensors \<open>0, \<dots>, s - 1\<close> and on no
  other sensor.
\<close>

lemma performance_measures_sensors:
  assumes "shape testX = [e, n, s]" "s \<le> n"
    and "shape r = [e, n]" "shape p = [e, n]" "shape q = [e, n]"
    and "length (items r) = length (items p)" "length (items r) = length (items q)"
  shows "performance_measures testX r p q =
           Inr \<lparr>seg_mael = map (sensor_mae r p) [0..<s],
                seg_masel = map (\<lambda>j. scaled_error (sensor_mae r p j) (sensor_mae r q j)) [0..<s],
                seg_nmael = map (sensor_mae r q) [0..<s],
                total_mae = np_mean (map (sensor_mae r p) [0..<s]),
                total_nmae = np_mean (map (sensor_mae r q) [0..<s]),
                total_mase =
                  np_nanmean (map (\<lambda>j. scaled_error (sensor_mae r p j) (sensor_mae r q j)) [0..<s])\<rparr>"
proof -
  have b: "\<forall>j\<in>set [0..<s]. j < n"
    using assms(2) by simp
  show ?thesis
    by (simp add: performance_measures_def shape_last_def assms(1) py_range_def
          performance_loop_sensors[OF assms(3-7) b])
qed

text \<open>Fewer than 8 entries are added from left to right.\<close>

lemma pairwise_sum_short: "length xs < 8 \<Longrightarrow> pairwise_sum xs = add_all (Fin 0) xs"
  by (subst pairwise_sum.simps) simp

lemma round64_5_3: "round64 (5 / 3) = Fin (7505999378950827 / 2 ^ 52)"
proof -
  have "round64 (5 / 3) =
          Fin (of_int (round_even ((5 / 3) / 2 powi (0 - 52))) * 2 powi (0 - 52))"
    by (rule round64_at) (simp_all add: power_int_minus)
  also have "round_even ((5 / 3) / 2 powi (0 - 52)) = 7505999378950827"
    by (simp add: power_int_minus round_even_def Let_def)
  finally show ?thesis
    by (simp add: power_int_minus)
qed

lemma scaled_error_zero_naive: "scaled_error mae (Fin 0) = NaN"
  by (simp add: scaled_error_def)

text \<open>
  Claim C2 on the code.  With 3 sensors, 2 test examples and windows of length 2 the cell
  reports on sensors 0 and 1 only: the per-sensor lists have 2 entries and the aggregates
  are means over these 2 sensors (model \<open>3 / 2\<close>, naive \<open>1\<close>), where the means over all 3
  sensors are \<open>3\<close> and the float nearest to \<open>5 / 3\<close>.  With windows longer than the number
  of sensors the cell raises IndexError.
\<close>

theorem performance_measures_window_length:
  "performance_measures
     \<lparr>shape = [2, 3, 2],
       items = [\<lparr>ncols = 2, rows = [[Fin 8, Fin 9], [Fin 20, Fin 21], [Fin 32, Fin 33]]\<rparr>,
                \<lparr>ncols = 2, rows = [[Fin 8, Fin 9], [Fin 20, Fin 21], [Fin 32, Fin 33]]\<rparr>]\<rparr>
     \<lparr>shape = [2, 3], items = [[Fin 10, Fin 20, Fin 30], [Fin 10, Fin 20, Fin 30]]\<rparr>
     \<lparr>shape = [2, 3], items = [[Fin 11, Fin 22, Fin 36], [Fin 11, Fin 22, Fin 36]]\<rparr>
     \<lparr>shape = [2, 3], items = [[Fin 9, Fin 21, Fin 33], [Fin 9, Fin 21, Fin 33]]\<rparr> =
   Inr \<lparr>seg_mael = [Fin 1, Fin 2], seg_masel = [Fin 1, Fin 2], seg_nmael = [Fin 1, Fin 1],
        total_mae = Fin (3 / 2), total_nmae = Fin 1, total_mase = Fin (3 / 2)\<rparr> \<and>
   sensor_mae \<lparr>shape = [2, 3], items = [[Fin 10, Fin 20, Fin 30], [Fin 10, Fin 20, Fin 30]]\<rparr>
              \<lparr>shape = [2, 3], items = [[Fin 11, Fin 22, Fin 36], [Fin 11, Fin 22, Fin 36]]\<rparr> 2 =
     Fin 6 \<and>
   sensor_mae \<lparr>shape = [2, 3], items = [[Fin 10, Fin 20, Fin 30], [Fin 10, Fin 20, Fin 30]]\<rparr>
              \<lparr>shape = [2, 3], items = [[Fin 9, Fin 21, Fin 33], [Fin 9, Fin 21, Fin 33]]\<rparr> 2 =
     Fin 3 \<and>
   np_mean [Fin 1, Fin 2, Fin 6] = Fin 3 \<and>
   np_mean [Fin 1, Fin 1, Fin 3] = Fin (7505999378950827 / 2 ^ 52) \<and>
   performance_measures
     \<lparr>shape = [1, 1, 2], items = [\<lparr>ncols = 2, rows = [[Fin 8, Fin 9]]\<rparr>]\<rparr>
     \<lparr>shape = [1, 1], items = [[Fin 10]]\<rparr>
     \<lparr>shape = [1, 1], items = [[Fin 11]]\<rparr>
     \<lparr>shape = [1, 1], items = [[Fin 9]]\<rparr> = Inl IndexError"
  using round64_5_3
  by (simp add: performance_measures_def shape_last_def py_range_def upt_rec
        mean_abs_error_def transposed_row_def np_sub_def np_mean_def np_nanmean_def fsub_Fin
        sensor_mae_def sensor_series_def np_sum_def pairwise_sum_short add_all_def
        round64_minus round64_0)

text \<open>
  Claim C8 on the code.  With 3 sensors, 2 test examples and windows of length 2, where
  the naive error of sensors 0 and 2 is zero: sensor 0 gets the marker \<open>nan\<close> and is left out
  of the aggregate, which is the ratio of sensor 1 alone; sensor 2 gets no entry at all.
\<close>

theorem performance_measures_zero_naive_error:
  "performance_measures
     \<lparr>shape = [2, 3, 2],
       items = [\<lparr>ncols = 2, rows = [[Fin 9, Fin 10], [Fin 20, Fin 21], [Fin 29, Fin 30]]\<rparr>,
                \<lparr>ncols = 2, rows = [[Fin 9, Fin 10], [Fin 20, Fin 21], [Fin 29, Fin 30]]\<rparr>]\<rparr>
     \<lparr>shape = [2, 3], items = [[Fin 10, Fin 20, Fin 30], [Fin 10, Fin 20, Fin 30]]\<rparr>
     \<lparr>shape = [2, 3], items = [[Fin 11, Fin 22, Fin 36], [Fin 11, Fin 22, Fin 36]]\<rparr>
     \<lparr>shape = [2, 3], items = [[Fin 10, Fin 21, Fin 30], [Fin 10, Fin 21, Fin 30]]\<rparr> =
   Inr \<lparr>seg_mael = [Fin 1, Fin 2], seg_masel = [NaN, Fin 2], seg_nmael = [Fin 0, Fin 1],
        total_mae = Fin (3 / 2), total_nmae = Fin (1 / 2), total_mase = Fin 2\<rparr> \<and>
   sensor_mae \<lparr>shape = [2, 3], items = [[Fin 10, Fin 20, Fin 30], [Fin 10, Fin 20, Fin 30]]\<rparr>
              \<lparr>shape = [2, 3], items = [[Fin 10, Fin 21, Fin 30], [Fin 10, Fin 21, Fin 30]]\<rparr> 2 =
     Fin 0"
  by (simp add: performance_measures_def shape_last_def py_range_def upt_rec
        mean_abs_error_def transposed_row_def np_sub_def np_mean_def np_nanmean_def fsub_Fin
        sensor_mae_def sensor_series_def np_sum_def pairwise_sum_short add_all_def
        round64_minus round64_0)

section \<open>The preprocessing functions leave their arguments alone\<close>

lemma unchanged_refl: "unchanged s s"
  by (simp add: unchanged_def)

lemma unchanged_trans: "unchanged s s' \<Longrightarrow> unchanged s' s'' \<Longrightarrow> unchanged s s''"
proof -
  have t: "take (length xs) zs = xs"
    if "take (length xs) ys = xs" "take (length ys) zs = ys" for xs ys zs :: "'b list"
  proof -
    have "length (take (length xs) ys) = length xs"
      using that(1) by simp
    then have "length xs \<le> length ys"
      by simp
    then have "take (length xs) (take (length ys) zs) = take (length xs) zs"
      by (simp add: min_def)
    then show ?thesis
      using that by simp
  qed
  assume "unchanged s s'" "unchanged s' s''"
  then show ?thesis
    unfolding unchanged_def by (auto intro: t)
qed

lemma unchanged_alloc_mat: "unchanged s (fst (alloc_mat m s))"
  by (simp add: unchanged_def alloc_mat_def)

lemma unchanged_alloc_stack3: "unchanged s (fst (alloc_stack3 a s))"
  by (simp add: unchanged_def alloc_stack3_def)

lemma unchanged_alloc_stack2: "unchanged s (fst (alloc_stack2 a s))"
  by (simp add: unchanged_def alloc_stack2_def)

lemma mats_alloc_mat: "mats (fst (alloc_mat m s)) = mats s @ [m]"
  by (simp add: alloc_mat_def)

lemma snd_alloc_mat: "snd (alloc_mat m s) = Base (length (mats s))"
  by (simp add: alloc_mat_def)

text \<open>A view of a buffer of \<open>s\<close> shows the same contents in every later store.\<close>

lemma read2_unchanged:
  assumes "unchanged s s'" "base_of v < length (mats s)"
  shows "read2 s' v = read2 s v"
  using assms(2)
proof (induction v)
  case (Base a)
  have "mats s' ! a = take (length (mats s)) (mats s') ! a"
    using Base by simp
  then show ?case
    using assms(1) by (simp add: unchanged_def)
qed simp_all

subsection \<open>train_test_split\<close>

lemma train_test_split_st_frame:
  "unchanged s (fst (train_test_split_st data p s)) \<and>
   (case snd (train_test_split_st data p s) of
      Inl e \<Rightarrow> fst (train_test_split_st data p s) = s
    | Inr (train_data, test_data) \<Rightarrow>
        train_data = Base (length (mats s)) \<and> test_data = Base (Suc (length (mats s))))"
  by (simp add: train_test_split_st_def np_array_copy_def alloc_mat_def unchanged_def Let_def
        split: sum.splits)

lemma train_test_split_st_ok:
  assumes "train_size_of (ncols (read2 s data)) p = Inr k"
  shows "snd (train_test_split_st data p s) =
           Inr (Base (length (mats s)), Base (Suc (length (mats s))))"
  using assms by (simp add: train_test_split_st_def np_array_copy_def alloc_mat_def Let_def)

text \<open>The two new buffers hold what the function on values returns.\<close>

lemma train_test_split_st_contents:
  assumes "base_of data < length (mats s)"
  shows "case train_test_split_st data p s of
           (s', Inl e) \<Rightarrow> train_test_split (read2 s data) p = Inl e
         | (s', Inr (train_data, test_data)) \<Rightarrow>
             train_test_split (read2 s data) p = Inr (read2 s' train_data, read2 s' test_data)"
proof (cases "train_size_of (ncols (read2 s data)) p")
  case (Inl e)
  then show ?thesis
    by (simp add: train_test_split_st_def train_test_split_def)
next
  case (Inr k)
  let ?s1 = "fst (np_array_copy (Cols data 0 k) s)"
  have u: "unchanged s ?s1"
    by (simp add: np_array_copy_def unchanged_alloc_mat)
  have r: "read2 ?s1 data = read2 s data"
    by (rule read2_unchanged[OF u assms])
  show ?thesis
    using r Inr
    by (simp add: train_test_split_st_def train_test_split_def np_array_copy_def alloc_mat_def
          Let_def nth_append)
qed

text \<open>
  The split index of the code: the product of the column count and the portion is rounded
  before it is truncated.  With the float \<open>0.6\<close>, which is below \<open>3 / 5\<close>, 5 columns give the
  index 3 and 15 columns the index 9.
\<close>

lemma round64_3_5: "round64 (3 / 5) = Fin (5404319552844595 / 2 ^ 53)"
proof -
  have "round64 (3 / 5) =
          Fin (of_int (round_even ((3 / 5) / 2 powi (- 1 - 52))) * 2 powi (- 1 - 52))"
    by (rule round64_at) (simp_all add: power_int_minus)
  also have "round_even ((3 / 5) / 2 powi (- 1 - 52)) = 5404319552844595"
    by (simp add: power_int_minus round_even_def Let_def)
  finally show ?thesis
    by (simp add: power_int_minus)
qed

lemma split_index_5: "train_size_of 5 (Fin (5404319552844595 / 2 ^ 53)) = Inr 3"
proof -
  let ?x = "5 * (5404319552844595 / 2 ^ 53) :: real"
  have "round64 ?x = Fin (of_int (round_even (?x / 2 powi (1 - 52))) * 2 powi (1 - 52))"
    by (rule round64_at) (simp_all add: power_int_minus)
  also have "round_even (?x / 2 powi (1 - 52)) = 6755399441055744"
    by (simp add: power_int_minus round_even_def Let_def)
  finally have "round64 ?x = Fin 3"
    by (simp add: power_int_minus)
  then show ?thesis
    by (simp add: train_size_of_def py_int_def int_times_float_def)
qed

lemma split_index_15: "train_size_of 15 (Fin (5404319552844595 / 2 ^ 53)) = Inr 9"
proof -
  let ?x = "15 * (5404319552844595 / 2 ^ 53) :: real"
  have "round64 ?x = Fin (of_int (round_even (?x / 2 powi (3 - 52))) * 2 powi (3 - 52))"
    by (rule round64_at) (simp_all add: power_int_minus)
  also have "round_even (?x / 2 powi (3 - 52)) = 5066549580791808"
    by (simp add: power_int_minus round_even_def Let_def)
  finally have "round64 ?x = Fin 9"
    by (simp add: power_int_minus)
  then show ?thesis
    by (simp add: train_size_of_def py_int_def int_times_float_def)
qed

subsection \<open>scale_data\<close>

lemma scale_data_st_frame:
  "unchanged s (fst (scale_data_st train_data test_data s)) \<and>
   (case snd (scale_data_st train_data test_data s) of
      Inl e \<Rightarrow> fst (scale_data_st train_data test_data s) = s
    | Inr (train_scaled, test_scaled) \<Rightarrow>
        train_scaled = Base (length (mats s) + 1) \<and> test_scaled = Base (length (mats s) + 3))"
  by (simp add: scale_data_st_def np_entrywise_def alloc_mat_def unchanged_def Let_def
        split: sum.splits)

lemma map_matrix_scale_value:
  "map_matrix (\<lambda>x. fdiv x (fsub mx mn)) (map_matrix (\<lambda>x. fsub x mn) m) =
     map_matrix (scale_value mn mx) m"
  by (simp add: map_matrix_def scale_value_def comp_def)

lemma scale_data_st_contents:
  assumes "base_of train_data < length (mats s)" "base_of test_data < length (mats s)"
  shows "case scale_data_st train_data test_data s of
           (s', Inl e) \<Rightarrow> scale_data (read2 s train_data) (read2 s test_data) = Inl e
         | (s', Inr (train_scaled, test_scaled)) \<Rightarrow>
             scale_data (read2 s train_data) (read2 s test_data) =
               Inr (read2 s' train_scaled, read2 s' test_scaled)"
proof (cases "np_max (read2 s train_data)")
  case (Inl e)
  then show ?thesis
    by (simp add: scale_data_st_def scale_data_def)
next
  case mx: (Inr max_speed)
  show ?thesis
  proof (cases "np_min (read2 s train_data)")
    case (Inl e)
    then show ?thesis
      using mx by (simp add: scale_data_st_def scale_data_def)
  next
    case mn: (Inr min_speed)
    let ?sub = "\<lambda>x. fsub x min_speed" and ?div = "\<lambda>x. fdiv x (fsub max_speed min_speed)"
    let ?s2 = "s\<lparr>mats := mats s @ [map_matrix ?sub (read2 s train_data),
                               map_matrix ?div (map_matrix ?sub (read2 s train_data))]\<rparr>"
    have u: "unchanged s ?s2"
      by (simp add: unchanged_def)
    have r: "read2 ?s2 test_data = read2 s test_data"
      by (rule read2_unchanged[OF u assms(2)])
    show ?thesis
      using mx mn r
      by (simp add: scale_data_st_def scale_data_def np_entrywise_def alloc_mat_def Let_def
            nth_append map_matrix_scale_value)
  qed
qed

subsection \<open>sequence_data_preparation\<close>

lemma read2_same_mats: "mats s' = mats s \<Longrightarrow> read2 s' v = read2 s v"
  by (induction v) simp_all

lemma read1_same_mats:
  assumes "mats s' = mats s"
  shows "read1 s' v = read1 s v"
  using read2_same_mats[OF assms] by (cases v) simp

text \<open>The views collected by the loop show the arrays collected by the loop on values.\<close>

lemma prepare_loop_st_contents:
  "prepare_loop sl pl (read2 s data) is (map (read2 s) X, map (read1 s) Y) =
     (case prepare_loop_st s sl pl data is (X, Y) of
        Inl e \<Rightarrow> Inl e
      | Inr (X', Y') \<Rightarrow> Inr (map (read2 s) X', map (read1 s) Y'))"
proof (induction "is" arbitrary: X Y)
  case Nil
  then show ?case by simp
next
  case (Cons i "is")
  let ?a = "Cols data (int i) (int i + sl + pl)"
  show ?case
  proof (cases "ncols (read2 s ?a) = 0")
    case True
    have l: "prepare_loop sl pl (read2 s data) (i # is) (map (read2 s) X, map (read1 s) Y) =
               Inl IndexError"
      using True by (simp add: last_col_def Let_def)
    have r: "prepare_loop_st s sl pl data (i # is) (X, Y) = Inl IndexError"
      using True by (simp add: last_col_view_def Let_def)
    show ?thesis
      unfolding l r by simp
  next
    case False
    have l: "prepare_loop sl pl (read2 s data) (i # is) (map (read2 s) X, map (read1 s) Y) =
               prepare_loop sl pl (read2 s data) is
                 (map (read2 s) (X @ [Cols ?a 0 sl]), map (read1 s) (Y @ [LastCol ?a]))"
      using False by (simp add: last_col_def Let_def)
    have r: "prepare_loop_st s sl pl data (i # is) (X, Y) =
               prepare_loop_st s sl pl data is (X @ [Cols ?a 0 sl], Y @ [LastCol ?a])"
      using False by (simp add: last_col_view_def Let_def)
    show ?thesis
      unfolding l r by (rule Cons.IH)
  qed
qed

text \<open>The function run on the views, in terms of the two lists of views its loops collect.\<close>

lemma sequence_data_preparation_st_cases:
  "sequence_data_preparation_st sl pl train_data test_data s =
     (case prepare_loop_st s sl pl train_data
             (py_range (int (ncols (read2 s train_data)) - (sl + pl - 1))) ([], []) of
        Inl e \<Rightarrow> (s, Inl e)
      | Inr (trainX, trainY) \<Rightarrow>
          (case prepare_loop_st s sl pl test_data
                  (py_range (int (ncols (read2 s test_data)) - (sl + pl - 1))) ([], []) of
             Inl e \<Rightarrow> (s, Inl e)
           | Inr (testX, testY) \<Rightarrow>
               (s\<lparr>stacks3 := stacks3 s @ [np_array matrix_shape (map (read2 s) trainX),
                                            np_array matrix_shape (map (read2 s) testX)],
                  stacks2 := stacks2 s @ [np_array vector_shape (map (read1 s) trainY),
                                            np_array vector_shape (map (read1 s) testY)]\<rparr>,
                Inr (length (stacks3 s), length (stacks2 s),
                     Suc (length (stacks3 s)), Suc (length (stacks2 s))))))"
proof -
  let ?r1 = "py_range (int (ncols (read2 s train_data)) - (sl + pl - 1))"
  let ?r2 = "py_range (int (ncols (read2 s test_data)) - (sl + pl - 1))"
  have m: "read2 (t\<lparr>stacks3 := a\<rparr>) = read2 t" for a and t :: "'a store"
    by (rule ext, rule read2_same_mats) simp
  have m': "read2 (t\<lparr>stacks2 := b\<rparr>) = read2 t" for b and t :: "'a store"
    by (rule ext, rule read2_same_mats) simp
  have m1: "read1 (t\<lparr>stacks3 := a\<rparr>) = read1 t" for a and t :: "'a store"
    by (rule ext, rule read1_same_mats) simp
  have m1': "read1 (t\<lparr>stacks2 := b\<rparr>) = read1 t" for b and t :: "'a store"
    by (rule ext, rule read1_same_mats) simp
  show ?thesis
  proof (cases "prepare_loop_st s sl pl train_data ?r1 ([], [])")
    case (Inl e)
    then show ?thesis
      by (simp add: sequence_data_preparation_st_def)
  next
    case tr: (Inr a)
    obtain trainX trainY where a: "a = (trainX, trainY)"
      by (cases a) auto
    show ?thesis
    proof (cases "prepare_loop_st s sl pl test_data ?r2 ([], [])")
      case (Inl e)
      then show ?thesis
        using tr a by (simp add: sequence_data_preparation_st_def)
    next
      case te: (Inr b)
      obtain testX testY where b: "b = (testX, testY)"
        by (cases b) auto
      show ?thesis
        using tr a te b
        by (simp add: sequence_data_preparation_st_def np_array_stack3_def np_array_stack2_def
              alloc_stack3_def alloc_stack2_def m m' m1 m1')
    qed
  qed
qed

lemma sequence_data_preparation_st_frame:
  "unchanged s (fst (sequence_data_preparation_st sl pl train_data test_data s)) \<and>
   mats (fst (sequence_data_preparation_st sl pl train_data test_data s)) = mats s \<and>
   (case snd (sequence_data_preparation_st sl pl train_data test_data s) of
      Inl e \<Rightarrow> fst (sequence_data_preparation_st sl pl train_data test_data s) = s
    | Inr (trainX, trainY, testX, testY) \<Rightarrow>
        trainX = length (stacks3 s) \<and> trainY = length (stacks2 s) \<and>
        testX = Suc (length (stacks3 s)) \<and> testY = Suc (length (stacks2 s)))"
  unfolding sequence_data_preparation_st_cases
  by (simp add: unchanged_def split: sum.split prod.split)

lemma sequence_data_preparation_st_contents:
  "case sequence_data_preparation_st sl pl train_data test_data s of
     (s', Inl e) \<Rightarrow>
       sequence_data_preparation sl pl (read2 s train_data) (read2 s test_data) = Inl e
   | (s', Inr (trainX, trainY, testX, testY)) \<Rightarrow>
       sequence_data_preparation sl pl (read2 s train_data) (read2 s test_data) =
         Inr (stacks3 s' ! trainX, stacks2 s' ! trainY, stacks3 s' ! testX, stacks2 s' ! testY)"
  unfolding sequence_data_preparation_st_cases sequence_data_preparation_def
  using prepare_loop_st_contents[of sl pl s train_data _ "[]" "[]"]
        prepare_loop_st_contents[of sl pl s test_data _ "[]" "[]"]
  by (simp add: nth_append split: sum.split prod.split)

subsection \<open>The three cells together\<close>

lemma preprocess_st_frame: "unchanged s (fst (preprocess_st speed_data train_rate sl pl s))"
proof -
  obtain s1 r0 where a: "train_test_split_st speed_data train_rate s = (s1, r0)"
    by (cases "train_test_split_st speed_data train_rate s") auto
  have u1: "unchanged s s1"
    using train_test_split_st_frame[of s speed_data train_rate] a by simp
  show ?thesis
  proof (cases r0)
    case (Inl e)
    then show ?thesis
      using a u1 by (simp add: preprocess_st_def)
  next
    case r0: (Inr d)
    obtain train_data test_data where d: "d = (train_data, test_data)"
      by (cases d) auto
    obtain s2 r where b: "scale_data_st train_data test_data s1 = (s2, r)"
      by (cases "scale_data_st train_data test_data s1") auto
    have u2: "unchanged s1 s2"
      using scale_data_st_frame[of s1 train_data test_data] b by simp
    show ?thesis
    proof (cases r)
      case (Inl e)
      then show ?thesis
        using a r0 d b unchanged_trans[OF u1 u2] by (simp add: preprocess_st_def)
    next
      case (Inr c)
      obtain train_scaled test_scaled where c: "c = (train_scaled, test_scaled)"
        by (cases c) auto
      have u3: "unchanged s2 (fst (sequence_data_preparation_st sl pl train_scaled test_scaled s2))"
        using sequence_data_preparation_st_frame[of s2 sl pl train_scaled test_scaled] by simp
      show ?thesis
        using a r0 d b Inr c unchanged_trans[OF unchanged_trans[OF u1 u2] u3]
        by (simp add: preprocess_st_def)
    qed
  qed
qed

text \<open>
  Claim C9.  Each of \<open>train_test_split\<close>, \<open>scale_data\<close> and \<open>sequence_data_preparation\<close>
  leaves every buffer of the store as it was, so its arguments show the same contents
  afterwards; what it returns are buffers allocated by the call, at addresses that were
  not in the store before, and a call that raises leaves the store as it was.
  \<open>train_test_split\<close> returns its two new buffers whenever the split index
  \<open>int(time_len * train_portion)\<close> is computed without an exception.  The three cells run
  one after the other leave the observation matrix unchanged.
\<close>

theorem preprocessing_leaves_arguments:
  assumes "base_of data < length (mats s)" "base_of data' < length (mats s)"
  shows "unchanged s (fst (train_test_split_st data p s)) \<and>
         read2 (fst (train_test_split_st data p s)) data = read2 s data \<and>
         (case snd (train_test_split_st data p s) of
            Inl e \<Rightarrow> fst (train_test_split_st data p s) = s
          | Inr (train_data, test_data) \<Rightarrow>
              train_data = Base (length (mats s)) \<and>
              test_data = Base (Suc (length (mats s)))) \<and>
         (\<forall>k. train_size_of (ncols (read2 s data)) p = Inr k \<longrightarrow>
              snd (train_test_split_st data p s) =
                Inr (Base (length (mats s)), Base (Suc (length (mats s))))) \<and>
         unchanged s (fst (scale_data_st data data' s)) \<and>
         read2 (fst (scale_data_st data data' s)) data = read2 s data \<and>
         read2 (fst (scale_data_st data data' s)) data' = read2 s data' \<and>
         (case snd (scale_data_st data data' s) of
            Inl e \<Rightarrow> fst (scale_data_st data data' s) = s
          | Inr (train_scaled, test_scaled) \<Rightarrow>
              train_scaled = Base (length (mats s) + 1) \<and>
              test_scaled = Base (length (mats s) + 3)) \<and>
         unchanged s (fst (sequence_data_preparation_st sl pl data data' s)) \<and>
         read2 (fst (sequence_data_preparation_st sl pl data data' s)) data = read2 s data \<and>
         read2 (fst (sequence_data_preparation_st sl pl data data' s)) data' = read2 s data' \<and>
         (case snd (sequence_data_preparation_st sl pl data data' s) of
            Inl e \<Rightarrow> fst (sequence_data_preparation_st sl pl data data' s) = s
          | Inr (trainX, trainY, testX, testY) \<Rightarrow>
              trainX = length (stacks3 s) \<and> trainY = length (stacks2 s) \<and>
              testX = Suc (length (stacks3 s)) \<and> testY = Suc (length (stacks2 s))) \<and>
         unchanged s (fst (preprocess_st data train_rate sl pl s)) \<and>
         read2 (fst (preprocess_st data train_rate sl pl s)) data = read2 s data"
proof -
  note a = train_test_split_st_frame[of s data p]
  note b = scale_data_st_frame[of s data data']
  note c = sequence_data_preparation_st_frame[of s sl pl data data']
  note d = preprocess_st_frame[of s data train_rate sl pl]
  have a2: "\<forall>k. train_size_of (ncols (read2 s data)) p = Inr k \<longrightarrow>
              snd (train_test_split_st data p s) =
                Inr (Base (length (mats s)), Base (Suc (length (mats s))))"
    using train_test_split_st_ok by blast
  have a1: "read2 (fst (train_test_split_st data p s)) data = read2 s data"
    using a assms(1) by (intro read2_unchanged) simp_all
  have b1: "read2 (fst (scale_data_st data data' s)) data = read2 s data"
    using b assms(1) by (intro read2_unchanged) simp_all
  have b2: "read2 (fst (scale_data_st data data' s)) data' = read2 s data'"
    using b assms(2) by (intro read2_unchanged) simp_all
  have c1: "read2 (fst (sequence_data_preparation_st sl pl data data' s)) data = read2 s data"
    using c assms(1) by (intro read2_unchanged) simp_all
  have c2: "read2 (fst (sequence_data_preparation_st sl pl data data' s)) data' = read2 s data'"
    using c assms(2) by (intro read2_unchanged) simp_all
  have d1: "read2 (fst (preprocess_st data train_rate sl pl s)) data = read2 s data"
    using d assms(1) by (intro read2_unchanged) simp_all
  show ?thesis
    using a a2 b c d a1 b1 b2 c1 c2 d1 by blast
qed

theorem preprocessing_leaves_arguments_witness:
  "base_of (Base 0) <
     length (mats \<lparr>mats = [\<lparr>ncols = 5, rows = [[Fin 1, Fin 2, Fin 3, Fin 4, Fin 5]]\<rparr>],
                   stacks3 = [], stacks2 = []\<rparr>) \<and>
   train_size_of 5 (Fin (5404319552844595 / 2 ^ 53)) = Inr 3 \<and>
   read2 (fst (preprocess_st (Base 0) (Fin (5404319552844595 / 2 ^ 53)) 1 1
                 \<lparr>mats = [\<lparr>ncols = 5, rows = [[Fin 1, Fin 2, Fin 3, Fin 4, Fin 5]]\<rparr>],
                   stacks3 = [], stacks2 = []\<rparr>)) (Base 0) =
     \<lparr>ncols = 5, rows = [[Fin 1, Fin 2, Fin 3, Fin 4, Fin 5]]\<rparr> \<and>
   snd (train_test_split_st (Base 0) (Fin (5404319552844595 / 2 ^ 53))
          \<lparr>mats = [\<lparr>ncols = 5, rows = [[Fin 1, Fin 2, Fin 3, Fin 4, Fin 5]]\<rparr>],
            stacks3 = [], stacks2 = []\<rparr>) = Inr (Base 1, Base 2)"
proof -
  let ?s = "\<lparr>mats = [\<lparr>ncols = 5, rows = [[Fin 1, Fin 2, Fin 3, Fin 4, Fin 5]]\<rparr>],
              stacks3 = [], stacks2 = []\<rparr>"
  let ?p = "Fin (5404319552844595 / 2 ^ 53)"
  have h: "base_of (Base 0) < length (mats ?s)"
    by simp
  note t = preprocessing_leaves_arguments[OF h h, of ?p 1 1 ?p]
  have r: "read2 (fst (preprocess_st (Base 0) ?p 1 1 ?s)) (Base 0) = read2 ?s (Base 0)"
    using t by blast
  have k: "train_size_of (ncols (read2 ?s (Base 0))) ?p = Inr 3"
    using split_index_5 by simp
  have "\<forall>k. train_size_of (ncols (read2 ?s (Base 0))) ?p = Inr k \<longrightarrow>
          snd (train_test_split_st (Base 0) ?p ?s) =
            Inr (Base (length (mats ?s)), Base (Suc (length (mats ?s))))"
    using t by blast
  with k have "snd (train_test_split_st (Base 0) ?p ?s) =
                 Inr (Base (length (mats ?s)), Base (Suc (length (mats ?s))))"
    by blast
  then have f: "snd (train_test_split_st (Base 0) ?p ?s) = Inr (Base 1, Base 2)"
    by simp
  show ?thesis
    using h r f split_index_5 by simp
qed

text \<open>
  The three cells run on a store that holds one sensor with five timesteps, with the float
  \<open>0.6\<close> as the training portion: the observation matrix stays at address 0, and the store
  gains the two partitions, the intermediate and the scaled arrays, and the four stacked
  arrays.
\<close>

lemma preprocess_st_example:
  "preprocess_st (Base 0) (Fin (5404319552844595 / 2 ^ 53)) 1 1
     \<lparr>mats = [\<lparr>ncols = 5, rows = [[Fin 1, Fin 2, Fin 3, Fin 4, Fin 5]]\<rparr>],
       stacks3 = [], stacks2 = []\<rparr> =
   (\<lparr>mats = [\<lparr>ncols = 5, rows = [[Fin 1, Fin 2, Fin 3, Fin 4, Fin 5]]\<rparr>,
             \<lparr>ncols = 3, rows = [[Fin 1, Fin 2, Fin 3]]\<rparr>,
             \<lparr>ncols = 2, rows = [[Fin 4, Fin 5]]\<rparr>,
             \<lparr>ncols = 3, rows = [[Fin 0, Fin 1, Fin 2]]\<rparr>,
             \<lparr>ncols = 3, rows = [[Fin 0, Fin (1 / 2), Fin 1]]\<rparr>,
             \<lparr>ncols = 2, rows = [[Fin 3, Fin 4]]\<rparr>,
             \<lparr>ncols = 2, rows = [[Fin (3 / 2), Fin 2]]\<rparr>],
      stacks3 = [\<lparr>shape = [2, 1, 1],
                   items = [\<lparr>ncols = 1, rows = [[Fin 0]]\<rparr>, \<lparr>ncols = 1, rows = [[Fin (1 / 2)]]\<rparr>]\<rparr>,
                 \<lparr>shape = [1, 1, 1], items = [\<lparr>ncols = 1, rows = [[Fin (3 / 2)]]\<rparr>]\<rparr>],
      stacks2 = [\<lparr>shape = [2, 1], items = [[Fin (1 / 2)], [Fin 1]]\<rparr>,
                 \<lparr>shape = [1, 1], items = [[Fin 2]]\<rparr>]\<rparr>,
    Inr (0, 0, 1, 1))"
proof -
  let ?s = "\<lparr>mats = [\<lparr>ncols = 5, rows = [[Fin 1, Fin 2, Fin 3, Fin 4, Fin 5]]\<rparr>],
              stacks3 = [], stacks2 = []\<rparr>"
  have split: "train_test_split_st (Base 0) (Fin (5404319552844595 / 2 ^ 53)) ?s =
                 (\<lparr>mats = [\<lparr>ncols = 5, rows = [[Fin 1, Fin 2, Fin 3, Fin 4, Fin 5]]\<rparr>,
                           \<lparr>ncols = 3, rows = [[Fin 1, Fin 2, Fin 3]]\<rparr>,
                           \<lparr>ncols = 2, rows = [[Fin 4, Fin 5]]\<rparr>],
                    stacks3 = [], stacks2 = []\<rparr>, Inr (Base 1, Base 2))"
    using split_index_5
    by (simp add: train_test_split_st_def np_array_copy_def alloc_mat_def Let_def
          slice_cols_def slice_cols_from_def slice_bound_def py_slice_def)
  show ?thesis
    unfolding preprocess_st_def split
    by (simp add: scale_data_st_def
          sequence_data_preparation_st_def np_array_copy_def np_entrywise_def alloc_mat_def
          np_array_stack3_def np_array_stack2_def alloc_stack3_def alloc_stack2_def
          py_range_def upt_rec slice_cols_def slice_cols_from_def slice_bound_def
          py_slice_def last_col_view_def np_max_def np_min_def elements_def map_matrix_def
          fsub_Fin round64_0 matrix_shape_def vector_shape_def Let_def)
qed

end
